theory Spec2Isabelle
  imports Complex_Main "HOL-Library.Sublist" "HOL-Library.Multiset"
begin

section \<open>JavaScript strings\<close>

text \<open>
  A string is a list of characters. The model covers ASCII text: case mapping acts on the
  letters A-Z and a-z, white space is the ASCII white space that \<open>\s\<close> and \<open>trim\<close> accept,
  and a word character is what \<open>\w\<close> accepts without the unicode flag.
\<close>

definition is_space :: "char \<Rightarrow> bool" where
  "is_space c = (c \<in> set [CHR '' '', CHR 0x09, CHR 0x0A, CHR 0x0B, CHR 0x0C, CHR 0x0D])"

definition is_upper :: "char \<Rightarrow> bool" where
  "is_upper c = (let n = (of_char c :: nat) in 65 \<le> n \<and> n \<le> 90)"

definition is_lower :: "char \<Rightarrow> bool" where
  "is_lower c = (let n = (of_char c :: nat) in 97 \<le> n \<and> n \<le> 122)"

definition is_digit :: "char \<Rightarrow> bool" where
  "is_digit c = (let n = (of_char c :: nat) in 48 \<le> n \<and> n \<le> 57)"

definition is_alpha :: "char \<Rightarrow> bool" where
  "is_alpha c = (is_upper c \<or> is_lower c)"

definition is_word :: "char \<Rightarrow> bool" where
  "is_word c = (is_alpha c \<or> is_digit c \<or> c = CHR ''_'')"

text \<open>An upper-case letter and its lower-case letter differ by 32, which is bit 5 of the
  character code.\<close>

definition lower_char :: "char \<Rightarrow> char" where
  "lower_char c =
     (if is_upper c
      then (case c of Char b0 b1 b2 b3 b4 b5 b6 b7 \<Rightarrow> Char b0 b1 b2 b3 b4 True b6 b7)
      else c)"

definition upper_char :: "char \<Rightarrow> char" where
  "upper_char c =
     (if is_lower c
      then (case c of Char b0 b1 b2 b3 b4 b5 b6 b7 \<Rightarrow> Char b0 b1 b2 b3 b4 False b6 b7)
      else c)"

definition toLowerCase :: "string \<Rightarrow> string" where
  "toLowerCase s = map lower_char s"

definition toUpperCase :: "string \<Rightarrow> string" where
  "toUpperCase s = map upper_char s"

definition trim :: "string \<Rightarrow> string" where
  "trim s = rev (dropWhile is_space (rev (dropWhile is_space s)))"

text \<open>\<open>s.split(/\s+/)\<close>: the pieces between maximal runs of white space; a run at either
  end of the string leaves an empty piece there, and the empty string gives one empty piece.\<close>

function split_ws_from :: "string \<Rightarrow> string \<Rightarrow> string list" where
  "split_ws_from cur [] = [rev cur]"
| "split_ws_from cur (c # cs) =
     (if is_space c then rev cur # split_ws_from [] (dropWhile is_space cs)
      else split_ws_from (c # cur) cs)"
  by pat_completeness auto
termination
  by (relation "measure (\<lambda>(cur, s). length s)") (auto simp: le_imp_less_Suc length_dropWhile_le)

definition split_ws :: "string \<Rightarrow> string list" where
  "split_ws s = split_ws_from [] s"

text \<open>\<open>s.split(sep)\<close> for a separator of one character.\<close>

fun split_char_from :: "char \<Rightarrow> string \<Rightarrow> string \<Rightarrow> string list" where
  "split_char_from sep cur [] = [rev cur]"
| "split_char_from sep cur (c # cs) =
     (if c = sep then rev cur # split_char_from sep [] cs
      else split_char_from sep (c # cur) cs)"

definition split_char :: "char \<Rightarrow> string \<Rightarrow> string list" where
  "split_char sep s = split_char_from sep [] s"

text \<open>\<open>xs.join(sep)\<close>.\<close>

fun join :: "string \<Rightarrow> string list \<Rightarrow> string" where
  "join sep [] = []"
| "join sep [x] = x"
| "join sep (x # y # ys) = x @ sep @ join sep (y # ys)"

text \<open>The first offset at which \<open>w\<close> occurs in \<open>s\<close>.\<close>

fun index_in :: "string \<Rightarrow> string \<Rightarrow> nat option" where
  "index_in w [] = (if w = [] then Some 0 else None)"
| "index_in w (c # cs) =
     (if prefix w (c # cs) then Some 0 else map_option Suc (index_in w cs))"

text \<open>\<open>s.indexOf(w, from)\<close>: the start position is clamped to the string, and -1 says
  that \<open>w\<close> does not occur from there on.\<close>

definition indexOf :: "string \<Rightarrow> string \<Rightarrow> int \<Rightarrow> int" where
  "indexOf s w start =
     (let k = (if start < 0 then 0 else min (nat start) (length s)) in
      case index_in w (drop k s) of None \<Rightarrow> -1 | Some i \<Rightarrow> int (k + i))"

definition str_includes :: "string \<Rightarrow> string \<Rightarrow> bool" where
  "str_includes s w = (index_in w s \<noteq> None)"

definition startsWith :: "string \<Rightarrow> string \<Rightarrow> bool" where
  "startsWith s w = prefix w s"

definition endsWith :: "string \<Rightarrow> string \<Rightarrow> bool" where
  "endsWith s w = suffix w s"

text \<open>\<open>xs.slice(i, j)\<close> for \<open>0 \<le> i \<le> j\<close>.\<close>

definition slice :: "'a list \<Rightarrow> nat \<Rightarrow> nat \<Rightarrow> 'a list" where
  "slice xs i j = take (j - i) (drop i xs)"

text \<open>Errors a function throws are values: a \<open>TypeError\<close> of the runtime (a property
  read on \<open>undefined\<close>), or an \<open>Error\<close> with its message.\<close>

datatype js_error = TypeError | Error string

section \<open>Tokens\<close>

record token =
  tok_text :: string
  tok_pos :: string
  tok_start :: "int option"
  tok_end :: "int option"


section \<open>Entity recognizer: mapping entity text onto tokens\<close>

text \<open>\<open>isTokenSequenceMatch\<close> of the grammar engine: the loop over the entity words, with
  its index \<open>i\<close>. Reading a token past the end of the list is a \<open>TypeError\<close>.\<close>

fun isTokenSequenceMatch_from ::
  "token list \<Rightarrow> nat \<Rightarrow> string list \<Rightarrow> nat \<Rightarrow> js_error + bool" where
  "isTokenSequenceMatch_from tokens startIndex [] i = Inr True"
| "isTokenSequenceMatch_from tokens startIndex (w # ws) i =
     (if startIndex + i < length tokens
      then (if toLowerCase (tok_text (tokens ! (startIndex + i))) \<noteq> w then Inr False
            else isTokenSequenceMatch_from tokens startIndex ws (Suc i))
      else Inl TypeError)"

definition isTokenSequenceMatch :: "token list \<Rightarrow> nat \<Rightarrow> string list \<Rightarrow> js_error + bool" where
  "isTokenSequenceMatch tokens startIndex entityWords =
     isTokenSequenceMatch_from tokens startIndex entityWords 0"

text \<open>The multi-word loop of \<open>findMatchingTokensOptimized\<close>:
  \<open>for (let i = 0; i <= tokens.length - entityLength; i++)\<close>.\<close>

function findMatchingTokens_loop :: "token list \<Rightarrow> string list \<Rightarrow> nat \<Rightarrow> js_error + token list" where
  "findMatchingTokens_loop tokens entityWords i =
     (if int i \<le> int (length tokens) - int (length entityWords)
      then (case isTokenSequenceMatch tokens i entityWords of
              Inl e \<Rightarrow> Inl e
            | Inr True \<Rightarrow> Inr (slice tokens i (i + length entityWords))
            | Inr False \<Rightarrow> findMatchingTokens_loop tokens entityWords (Suc i))
      else Inr [])"
  by pat_completeness auto
termination
  by (relation "measure (\<lambda>(tokens, entityWords, i). Suc (length tokens) - i)") auto

declare findMatchingTokens_loop.simps [simp del]

definition findMatchingTokensOptimized :: "string \<Rightarrow> token list \<Rightarrow> js_error + token list" where
  "findMatchingTokensOptimized entityText tokens =
     (let entityWords = split_ws (toLowerCase entityText);
          entityLength = length entityWords
      in if entityLength = 1
         then (let targetWord = hd entityWords in
               case find (\<lambda>t. toLowerCase (tok_text t) = targetWord) tokens of
                 Some matchingToken \<Rightarrow> Inr [matchingToken]
               | None \<Rightarrow> Inr [])
         else findMatchingTokens_loop tokens entityWords 0)"

text \<open>The same search in the NLP service: \<open>matchesEntitySequence\<close> and
  \<open>findEntityTokensOptimized\<close>.\<close>

fun matchesEntitySequence_from ::
  "token list \<Rightarrow> nat \<Rightarrow> string list \<Rightarrow> nat \<Rightarrow> js_error + bool" where
  "matchesEntitySequence_from tokens startIndex [] i = Inr True"
| "matchesEntitySequence_from tokens startIndex (w # ws) i =
     (if startIndex + i < length tokens
      then (if toLowerCase (tok_text (tokens ! (startIndex + i))) \<noteq> w then Inr False
            else matchesEntitySequence_from tokens startIndex ws (Suc i))
      else Inl TypeError)"

definition matchesEntitySequence :: "token list \<Rightarrow> nat \<Rightarrow> string list \<Rightarrow> js_error + bool" where
  "matchesEntitySequence tokens startIndex entityWords =
     matchesEntitySequence_from tokens startIndex entityWords 0"

function findEntityTokens_loop :: "token list \<Rightarrow> string list \<Rightarrow> nat \<Rightarrow> js_error + token list" where
  "findEntityTokens_loop tokens entityWords i =
     (if int i \<le> int (length tokens) - int (length entityWords)
      then (case matchesEntitySequence tokens i entityWords of
              Inl e \<Rightarrow> Inl e
            | Inr True \<Rightarrow> Inr (slice tokens i (i + length entityWords))
            | Inr False \<Rightarrow> findEntityTokens_loop tokens entityWords (Suc i))
      else Inr [])"
  by pat_completeness auto
termination
  by (relation "measure (\<lambda>(tokens, entityWords, i). Suc (length tokens) - i)") auto

declare findEntityTokens_loop.simps [simp del]

definition findEntityTokensOptimized :: "string \<Rightarrow> token list \<Rightarrow> js_error + token list" where
  "findEntityTokensOptimized entityText tokens =
     (let entityWords = split_ws (toLowerCase entityText);
          entityLength = length entityWords
      in if entityLength = 1
         then (let targetWord = hd entityWords in
               case find (\<lambda>t. toLowerCase (tok_text t) = targetWord) tokens of
                 Some matchingToken \<Rightarrow> Inr [matchingToken]
               | None \<Rightarrow> Inr [])
         else findEntityTokens_loop tokens entityWords 0)"

text \<open>An entity span of the recognizer.\<close>

record entity =
  ent_text :: string
  ent_type :: string
  ent_start :: int
  ent_end :: int

text \<open>\<open>calculateFallbackOffset\<close>, \<open>getOptimizedOffset\<close>, \<open>buildEntityResult\<close>,
  \<open>calculateEntityOffsetsFromTokens\<close> and \<open>addEntitiesOptimized\<close>. The list of entity
  tokens that \<open>buildEntityResult\<close> receives is never empty.\<close>

definition calculateFallbackOffset :: "token \<Rightarrow> token list \<Rightarrow> int" where
  "calculateFallbackOffset tk tokens =
     (let reconstructedText = join '' '' (map tok_text tokens)
      in indexOf reconstructedText (tok_text tk) 0)"

definition getOptimizedOffset :: "token \<Rightarrow> token list \<Rightarrow> int" where
  "getOptimizedOffset tk tokens =
     (case tok_start tk of Some s \<Rightarrow> s | None \<Rightarrow> calculateFallbackOffset tk tokens)"

definition buildEntityResult :: "string \<Rightarrow> string \<Rightarrow> token list \<Rightarrow> token list \<Rightarrow> entity" where
  "buildEntityResult entityText entityType entityTokens allTokens =
     (let firstToken = hd entityTokens;
          lastToken = last entityTokens;
          start = getOptimizedOffset firstToken allTokens;
          end = getOptimizedOffset lastToken allTokens + int (length (tok_text lastToken))
      in \<lparr>ent_text = entityText, ent_type = entityType, ent_start = start, ent_end = end\<rparr>)"

definition calculateEntityOffsetsFromTokens ::
  "string \<Rightarrow> token list \<Rightarrow> string \<Rightarrow> js_error + entity option" where
  "calculateEntityOffsetsFromTokens entityText tokens entityType =
     (case findMatchingTokensOptimized entityText tokens of
        Inl e \<Rightarrow> Inl e
      | Inr entityTokens \<Rightarrow>
          if length entityTokens = 0 then Inr None
          else Inr (Some (buildEntityResult entityText entityType entityTokens tokens)))"

fun addEntitiesOptimized ::
  "string list \<Rightarrow> string \<Rightarrow> token list \<Rightarrow> entity list \<Rightarrow> js_error + entity list" where
  "addEntitiesOptimized [] ty tokens results = Inr results"
| "addEntitiesOptimized (entityText # entities) ty tokens results =
     (case calculateEntityOffsetsFromTokens entityText tokens ty of
        Inl e \<Rightarrow> Inl e
      | Inr None \<Rightarrow> addEntitiesOptimized entities ty tokens results
      | Inr (Some entityResult) \<Rightarrow> addEntitiesOptimized entities ty tokens (results @ [entityResult]))"

text \<open>The entity words match the consecutive tokens that start at index \<open>i\<close>, compared in
  lower case.\<close>

definition matches_at :: "token list \<Rightarrow> string list \<Rightarrow> nat \<Rightarrow> bool" where
  "matches_at tokens entityWords i =
     (i + length entityWords \<le> length tokens \<and>
      map (\<lambda>t. toLowerCase (tok_text t)) (slice tokens i (i + length entityWords)) = entityWords)"

section \<open>Synonym scoring: the keyword-table strategy\<close>










section \<open>Regular expressions\<close>

text \<open>
  The patterns of the rule tables are JavaScript regular expressions. A pattern is
  modelled by its syntax tree, with the constructs the rule tables use, and is run by a
  backtracking matcher that returns the end positions (with the captured groups) of all
  the ways the pattern matches at a position, in the order in which the engine tries them:
  the head of the list is the engine's match.
\<close>

datatype regex =
    Eps
  | Lit char
  | Cls "char \<Rightarrow> bool"
  | Seq regex regex
  | Alt regex regex
  | Star regex
  | LazyPlus regex
  | Group nat regex
  | WordBoundary
  | LineStart
  | LineEnd
  | Ahead regex
  | Behind "char \<Rightarrow> bool"

text \<open>The captures are kept newest first: \<open>(k, i, j)\<close> says that group \<open>k\<close> matched the
  characters from \<open>i\<close> up to \<open>j\<close>.\<close>

type_synonym captures = "(nat \<times> nat \<times> nat) list"

type_synonym mstate = "nat \<times> captures"

text \<open>Under the \<open>i\<close> flag characters are compared by their case-folded forms.\<close>

definition char_eq :: "bool \<Rightarrow> char \<Rightarrow> char \<Rightarrow> bool" where
  "char_eq ci x c = (if ci then lower_char x = lower_char c else x = c)"

definition cls_holds :: "bool \<Rightarrow> (char \<Rightarrow> bool) \<Rightarrow> char \<Rightarrow> bool" where
  "cls_holds ci f x = (if ci then f x \<or> f (lower_char x) \<or> f (upper_char x) else f x)"

text \<open>\<open>\b\<close> holds between a word character and a character that is none (or an end of
  the string).\<close>

definition word_at :: "string \<Rightarrow> nat \<Rightarrow> bool" where
  "word_at s i = (i < length s \<and> is_word (s ! i))"

definition word_before :: "string \<Rightarrow> nat \<Rightarrow> bool" where
  "word_before s i = (0 < i \<and> i \<le> length s \<and> is_word (s ! (i - 1)))"

function rmatch :: "bool \<Rightarrow> string \<Rightarrow> regex \<Rightarrow> mstate \<Rightarrow> mstate list" where
  "rmatch ci s Eps st = [st]"
| "rmatch ci s (Lit c) st =
     (if fst st < length s \<and> char_eq ci (s ! fst st) c then [(Suc (fst st), snd st)] else [])"
| "rmatch ci s (Cls f) st =
     (if fst st < length s \<and> cls_holds ci f (s ! fst st) then [(Suc (fst st), snd st)] else [])"
| "rmatch ci s (Seq a b) st = concat (map (rmatch ci s b) (rmatch ci s a st))"
| "rmatch ci s (Alt a b) st = rmatch ci s a st @ rmatch ci s b st"
| "rmatch ci s (Star r) st =
     concat (map (rmatch ci s (Star r))
               (filter (\<lambda>st'. fst st < fst st' \<and> fst st' \<le> length s) (rmatch ci s r st)))
     @ [st]"
| "rmatch ci s (LazyPlus r) st =
     concat (map (\<lambda>st'. st' # (if fst st < fst st' \<and> fst st' \<le> length s
                                then rmatch ci s (LazyPlus r) st' else []))
               (rmatch ci s r st))"
| "rmatch ci s (Group k r) st =
     map (\<lambda>st'. (fst st', (k, fst st, fst st') # snd st')) (rmatch ci s r st)"
| "rmatch ci s WordBoundary st =
     (if word_before s (fst st) \<noteq> word_at s (fst st) then [st] else [])"
| "rmatch ci s LineStart st = (if fst st = 0 then [st] else [])"
| "rmatch ci s LineEnd st = (if fst st = length s then [st] else [])"
| "rmatch ci s (Ahead r) st = (if rmatch ci s r st = [] then [] else [st])"
| "rmatch ci s (Behind f) st =
     (if 0 < fst st \<and> fst st \<le> length s \<and> cls_holds ci f (s ! (fst st - 1)) then [st] else [])"
  by pat_completeness auto
termination
  by (relation "inv_image (less_than <*lex*> less_than)
        (\<lambda>(ci, s, r, st). (size r, length s - fst st))") auto

declare rmatch.simps [simp del]

text \<open>A match: where it starts, where it ends, and its captures.\<close>

record regex_match =
  m_index :: nat
  m_end :: nat
  m_caps :: captures

definition match_at :: "bool \<Rightarrow> string \<Rightarrow> regex \<Rightarrow> nat \<Rightarrow> regex_match option" where
  "match_at ci s r i =
     (case rmatch ci s r (i, []) of
        [] \<Rightarrow> None
      | st # _ \<Rightarrow> Some \<lparr>m_index = i, m_end = fst st, m_caps = snd st\<rparr>)"

fun first_some :: "('a \<Rightarrow> 'b option) \<Rightarrow> 'a list \<Rightarrow> 'b option" where
  "first_some f [] = None"
| "first_some f (x # xs) = (case f x of Some y \<Rightarrow> Some y | None \<Rightarrow> first_some f xs)"

text \<open>The search of \<open>exec\<close>: the match at the leftmost start position from \<open>lastIndex\<close> on.\<close>

definition exec_from :: "bool \<Rightarrow> string \<Rightarrow> regex \<Rightarrow> nat \<Rightarrow> regex_match option" where
  "exec_from ci s r lastIndex = first_some (match_at ci s r) [lastIndex ..< Suc (length s)]"

text \<open>The text of a match, and of a captured group (the newest capture of the group).\<close>

definition match_text :: "string \<Rightarrow> regex_match \<Rightarrow> string" where
  "match_text s m = slice s (m_index m) (m_end m)"

definition group_text :: "string \<Rightarrow> regex_match \<Rightarrow> nat \<Rightarrow> string option" where
  "group_text s m k =
     (case map_of (m_caps m) k of None \<Rightarrow> None | Some (i, j) \<Rightarrow> Some (slice s i j))"

text \<open>Pattern syntax that is written with the constructs above.\<close>

definition Plus :: "regex \<Rightarrow> regex" where
  "Plus r = Seq r (Star r)"

definition Opt :: "regex \<Rightarrow> regex" where
  "Opt r = Alt r Eps"

definition seqs :: "regex list \<Rightarrow> regex" where
  "seqs rs = foldr Seq rs Eps"

definition str :: "string \<Rightarrow> regex" where
  "str w = seqs (map Lit w)"

fun alts :: "regex list \<Rightarrow> regex" where
  "alts [] = Eps"
| "alts [r] = r"
| "alts (r # rs) = Alt r (alts rs)"

definition dot :: regex where
  "dot = Cls (\<lambda>c. c \<noteq> CHR 0x0A \<and> c \<noteq> CHR 0x0D)"

definition ws1 :: regex where
  "ws1 = Plus (Cls is_space)"

definition word1 :: regex where
  "word1 = Plus (Cls is_word)"

text \<open>Every way the matcher ends lies at or after its start and inside the string, so a
  match found by the search starts at or after \<open>lastIndex\<close> and ends inside the string.\<close>

lemma rmatch_bounds:
  "st' \<in> set (rmatch ci s r st) \<Longrightarrow>
   fst st \<le> fst st' \<and> (fst st \<le> length s \<longrightarrow> fst st' \<le> length s)"
proof (induction ci s r st arbitrary: st' rule: rmatch.induct)
  case (4 ci s a b st)
  from "4.prems" obtain mid where mid: "mid \<in> set (rmatch ci s a st)"
    and st': "st' \<in> set (rmatch ci s b mid)"
    by (auto simp: rmatch.simps)
  from "4.IH"(1) [OF mid] "4.IH"(2) [OF mid st'] show ?case by auto
next
  case (6 ci s r st)
  from "6.prems" consider (stop) "st' = st"
    | (more) mid where "mid \<in> set (rmatch ci s r st)" "fst st < fst mid" "fst mid \<le> length s"
        "st' \<in> set (rmatch ci s (Star r) mid)"
    by (subst (asm) rmatch.simps) auto
  then show ?case
  proof cases
    case stop
    then show ?thesis by simp
  next
    case more
    from "6.IH"(2) [of mid st'] more show ?thesis by auto
  qed
next
  case (7 ci s r st)
  from "7.prems" obtain mid where mid: "mid \<in> set (rmatch ci s r st)"
    and alt: "st' = mid \<or> (fst st < fst mid \<and> fst mid \<le> length s \<and>
                 st' \<in> set (rmatch ci s (LazyPlus r) mid))"
    by (subst (asm) rmatch.simps) (auto split: if_splits)
  from alt show ?case
  proof
    assume "st' = mid"
    with "7.IH"(1) [OF mid] show ?thesis by simp
  next
    assume more: "fst st < fst mid \<and> fst mid \<le> length s \<and> st' \<in> set (rmatch ci s (LazyPlus r) mid)"
    with "7.IH"(2) [of mid st'] mid show ?thesis by auto
  qed
qed (auto simp: rmatch.simps split: if_splits)

lemma first_some_Some:
  "first_some f xs = Some y \<Longrightarrow> \<exists>x \<in> set xs. f x = Some y"
  by (induction xs) (auto split: option.splits)

lemma exec_from_bounds:
  assumes "exec_from ci s r k = Some m"
  shows "k \<le> m_index m \<and> m_index m \<le> m_end m \<and> m_end m \<le> length s"
proof -
  from assms obtain i where i: "k \<le> i" "i \<le> length s" and at: "match_at ci s r i = Some m"
    unfolding exec_from_def by (auto dest!: first_some_Some)
  from at obtain st sts where res: "rmatch ci s r (i, []) = st # sts"
    and m: "m = \<lparr>m_index = i, m_end = fst st, m_caps = snd st\<rparr>"
    by (auto simp: match_at_def split: list.splits)
  from res have "st \<in> set (rmatch ci s r (i, []))" by simp
  from rmatch_bounds [OF this] i m show ?thesis by simp
qed

text \<open>The matches that a pattern with the \<open>g\<close> flag yields to \<open>match\<close> and \<open>replace\<close>:
  left to right without overlap; after an empty match the search moves on by one
  character.\<close>

function all_matches :: "bool \<Rightarrow> string \<Rightarrow> regex \<Rightarrow> nat \<Rightarrow> regex_match list" where
  "all_matches ci s r lastIndex =
     (case exec_from ci s r lastIndex of
        None \<Rightarrow> []
      | Some m \<Rightarrow>
          m # all_matches ci s r (if m_end m = m_index m then Suc (m_end m) else m_end m))"
  by pat_completeness auto
termination
proof (relation "measure (\<lambda>(ci, s, r, lastIndex). Suc (length s) - lastIndex)")
  show "wf (measure (\<lambda>(ci, s, r, lastIndex). Suc (length s) - lastIndex))"
    by simp
next
  fix ci s r lastIndex m
  assume "exec_from ci s r lastIndex = Some m"
  from exec_from_bounds [OF this]
  show "((ci, s, r, if m_end m = m_index m then Suc (m_end m) else m_end m), ci, s, r, lastIndex)
      \<in> measure (\<lambda>(ci, s, r, lastIndex). Suc (length s) - lastIndex)"
    by auto
qed

declare all_matches.simps [simp del]

text \<open>\<open>s.replace(pattern, f)\<close> for a pattern with the \<open>g\<close> flag: the text between the
  matches is kept and each match is replaced by what \<open>f\<close> makes of it.\<close>

fun replace_matches :: "string \<Rightarrow> (regex_match \<Rightarrow> string) \<Rightarrow> nat \<Rightarrow> regex_match list \<Rightarrow> string" where
  "replace_matches s f pos [] = drop pos s"
| "replace_matches s f pos (m # ms) =
     slice s pos (m_index m) @ f m @ replace_matches s f (m_end m) ms"

definition replace_all :: "bool \<Rightarrow> string \<Rightarrow> regex \<Rightarrow> (regex_match \<Rightarrow> string) \<Rightarrow> string" where
  "replace_all ci s r f = replace_matches s f 0 (all_matches ci s r 0)"

text \<open>\<open>s.replace(pattern, f)\<close> for a pattern without the \<open>g\<close> flag: the first match only.\<close>

definition replace_first :: "bool \<Rightarrow> string \<Rightarrow> regex \<Rightarrow> (regex_match \<Rightarrow> string) \<Rightarrow> string" where
  "replace_first ci s r f =
     (case exec_from ci s r 0 of
        None \<Rightarrow> s
      | Some m \<Rightarrow> take (m_index m) s @ f m @ drop (m_end m) s)"

text \<open>A \<open>RegExp\<close> object: its compiled pattern and its flags. \<open>exec\<close> starts at
  \<open>lastIndex\<close> when the pattern has the \<open>g\<close> flag and at 0 otherwise; \<open>test\<close> on a fresh
  object asks whether \<open>exec\<close> finds a match.\<close>

record js_regexp =
  rx_ast :: regex
  rx_global :: bool
  rx_ignoreCase :: bool

definition regexp_exec :: "js_regexp \<Rightarrow> string \<Rightarrow> nat \<Rightarrow> regex_match option" where
  "regexp_exec rx s lastIndex =
     exec_from (rx_ignoreCase rx) s (rx_ast rx) (if rx_global rx then lastIndex else 0)"

definition regexp_test :: "js_regexp \<Rightarrow> string \<Rightarrow> bool" where
  "regexp_test rx s = (regexp_exec rx s 0 \<noteq> None)"

definition word_group :: "nat \<Rightarrow> string list \<Rightarrow> regex" where
  "word_group k ws = Group k (alts (map str ws))"

text \<open>\<open>new RegExp(`\\b${word}\\b`, 'gi')\<close>.\<close>

definition whole_word :: "string \<Rightarrow> regex" where
  "whole_word w = seqs [WordBoundary, str w, WordBoundary]"

section \<open>Grammar and spelling rule engine\<close>

datatype RuleType = SPELLING | PUNCTUATION | SUBJECT_VERB_AGREEMENT | TENSE_CONSISTENCY

record CheckResult =
  cr_type :: RuleType
  cr_message :: string
  cr_line :: nat
  cr_column :: nat
  cr_suggestion :: "string option"

record GrammarRule =
  gr_type :: RuleType
  gr_pattern :: js_regexp
  gr_message :: string
  gr_severity :: string

text \<open>\<open>COMMON_MISSPELLINGS\<close>, in the order of its keys.\<close>

definition COMMON_MISSPELLINGS :: "(string \<times> string) list" where
  "COMMON_MISSPELLINGS =
     [(''caat'', ''cat''), (''eror'', ''error''), (''runing'', ''running''),
      (''quikly'', ''quickly''), (''wrold'', ''world''), (''recieve'', ''receive''),
      (''seperate'', ''separate''), (''definately'', ''definitely'')]"

definition is_sentence_end :: "char \<Rightarrow> bool" where
  "is_sentence_end c = (c \<in> set ''.!?'')"

text \<open>The initial \<open>GRAMMAR_RULES\<close>.\<close>

definition GRAMMAR_RULES :: "GrammarRule list" where
  "GRAMMAR_RULES =
     [\<lparr>gr_type = PUNCTUATION,
       gr_pattern = \<lparr>rx_ast = seqs [LineStart, Cls is_upper, Star (Cls (\<lambda>c. \<not> is_sentence_end c)),
                                    Cls is_alpha, Star (Cls is_space), LineEnd],
                     rx_global = False, rx_ignoreCase = False\<rparr>,
       gr_message = ''Missing period at end of sentence'', gr_severity = ''error''\<rparr>,
      \<lparr>gr_type = PUNCTUATION,
       gr_pattern = \<lparr>rx_ast = seqs [Cls is_space, Cls is_space, Star (Cls is_space)],
                     rx_global = True, rx_ignoreCase = False\<rparr>,
       gr_message = ''Multiple consecutive spaces should be single space'',
       gr_severity = ''warning''\<rparr>,
      \<lparr>gr_type = PUNCTUATION,
       gr_pattern = \<lparr>rx_ast = seqs [Cls is_sentence_end, Cls is_sentence_end,
                                    Star (Cls is_sentence_end)],
                     rx_global = True, rx_ignoreCase = False\<rparr>,
       gr_message = ''Multiple consecutive punctuation marks'', gr_severity = ''warning''\<rparr>,
      \<lparr>gr_type = PUNCTUATION,
       gr_pattern = \<lparr>rx_ast = seqs [ws1, Cls is_sentence_end],
                     rx_global = True, rx_ignoreCase = False\<rparr>,
       gr_message = ''Space before punctuation mark'', gr_severity = ''error''\<rparr>,
      \<lparr>gr_type = PUNCTUATION,
       gr_pattern = \<lparr>rx_ast = seqs [Cls is_sentence_end, Ahead (Cls is_alpha)],
                     rx_global = True, rx_ignoreCase = False\<rparr>,
       gr_message = ''Missing space after punctuation mark'', gr_severity = ''error''\<rparr>,
      \<lparr>gr_type = PUNCTUATION,
       gr_pattern = \<lparr>rx_ast = seqs [Behind is_alpha, Lit CHR '','', Ahead (Cls is_alpha)],
                     rx_global = True, rx_ignoreCase = False\<rparr>,
       gr_message = ''Missing space after comma'', gr_severity = ''error''\<rparr>,
      \<lparr>gr_type = SUBJECT_VERB_AGREEMENT,
       gr_pattern = \<lparr>rx_ast = seqs [WordBoundary,
                        word_group 1 [''cats'', ''dogs'', ''birds'', ''people'', ''children'',
                                      ''women'', ''men''],
                        ws1, str ''is'', WordBoundary],
                     rx_global = False, rx_ignoreCase = True\<rparr>,
       gr_message = ''Subject-verb agreement error: plural subject requires ''
                    @ [CHR 0x22] @ ''are'' @ [CHR 0x22],
       gr_severity = ''error''\<rparr>,
      \<lparr>gr_type = SUBJECT_VERB_AGREEMENT,
       gr_pattern = \<lparr>rx_ast = seqs [WordBoundary,
                        word_group 1 [''cat'', ''dog'', ''bird'', ''person'', ''child'', ''woman'',
                                      ''man'', ''caat'', ''doog'', ''brid''],
                        ws1, str ''are'', WordBoundary],
                     rx_global = False, rx_ignoreCase = True\<rparr>,
       gr_message = ''Subject-verb agreement error: singular subject requires ''
                    @ [CHR 0x22] @ ''is'' @ [CHR 0x22],
       gr_severity = ''error''\<rparr>,
      \<lparr>gr_type = SUBJECT_VERB_AGREEMENT,
       gr_pattern = \<lparr>rx_ast = seqs [WordBoundary, word_group 1 [''he'', ''she'', ''it''],
                                    ws1, str ''are'', WordBoundary],
                     rx_global = False, rx_ignoreCase = True\<rparr>,
       gr_message = ''Subject-verb agreement error: singular pronoun requires ''
                    @ [CHR 0x22] @ ''is'' @ [CHR 0x22],
       gr_severity = ''error''\<rparr>,
      \<lparr>gr_type = SUBJECT_VERB_AGREEMENT,
       gr_pattern = \<lparr>rx_ast = seqs [WordBoundary, word_group 1 [''they'', ''we'', ''you''],
                                    ws1, str ''is'', WordBoundary],
                     rx_global = False, rx_ignoreCase = True\<rparr>,
       gr_message = ''Subject-verb agreement error: plural pronoun requires ''
                    @ [CHR 0x22] @ ''are'' @ [CHR 0x22],
       gr_severity = ''error''\<rparr>,
      \<lparr>gr_type = SUBJECT_VERB_AGREEMENT,
       gr_pattern = \<lparr>rx_ast = seqs [WordBoundary, word_group 1 [''the'', ''a'', ''an''],
                                    ws1, word1, ws1, str ''are'', WordBoundary],
                     rx_global = False, rx_ignoreCase = True\<rparr>,
       gr_message = ''Subject-verb agreement error: singular subject with determiner requires ''
                    @ [CHR 0x22] @ ''is'' @ [CHR 0x22],
       gr_severity = ''error''\<rparr>,
      \<lparr>gr_type = TENSE_CONSISTENCY,
       gr_pattern = \<lparr>rx_ast = seqs [WordBoundary,
                        word_group 1 [''went'', ''walked'', ''ran'', ''drove'', ''ate'', ''bought''],
                        WordBoundary, Star dot, WordBoundary, str ''and'', ws1,
                        word_group 2 [''go'', ''walk'', ''run'', ''drive'', ''eat'', ''buy''],
                        WordBoundary],
                     rx_global = False, rx_ignoreCase = True\<rparr>,
       gr_message = ''Tense inconsistency: mixing past and present tense'',
       gr_severity = ''error''\<rparr>,
      \<lparr>gr_type = TENSE_CONSISTENCY,
       gr_pattern = \<lparr>rx_ast = seqs [WordBoundary,
                        word_group 1 [''go'', ''walk'', ''run'', ''drive'', ''eat'', ''buy''],
                        WordBoundary, Star dot, WordBoundary, str ''and'', ws1,
                        word_group 2 [''went'', ''walked'', ''ran'', ''drove'', ''ate'', ''bought''],
                        WordBoundary],
                     rx_global = False, rx_ignoreCase = True\<rparr>,
       gr_message = ''Tense inconsistency: mixing present and past tense'',
       gr_severity = ''error''\<rparr>]"

text \<open>\<open>checkSpellingFast\<close>: the loop over the known misspellings with the results so far;
  it stops as soon as two results are collected. The first occurrence of the word in the
  lower-cased line is the only one examined.\<close>

definition spelling_message :: "string \<Rightarrow> string \<Rightarrow> string" where
  "spelling_message word correction =
     ''Possible spelling error: '' @ [CHR 0x22] @ word @ [CHR 0x22] @ '' should be ''
       @ [CHR 0x22] @ correction @ [CHR 0x22]"

fun checkSpellingFast_loop ::
  "(string \<times> string) list \<Rightarrow> string \<Rightarrow> nat \<Rightarrow> CheckResult list \<Rightarrow> CheckResult list" where
  "checkSpellingFast_loop [] line lineNumber results = results"
| "checkSpellingFast_loop ((word, correction) # knownWords) line lineNumber results =
     (let index = indexOf (toLowerCase line) word 0 in
      if index \<noteq> -1
      then (let beforeChar = (if index > 0 then line ! nat (index - 1) else CHR '' '');
                afterChar = (if index + int (length word) < int (length line)
                             then line ! nat (index + int (length word)) else CHR '' '')
            in if \<not> is_word beforeChar \<and> \<not> is_word afterChar
               then (let results' = results @
                           [\<lparr>cr_type = SPELLING, cr_message = spelling_message word correction,
                             cr_line = lineNumber, cr_column = nat (index + 1),
                             cr_suggestion = Some correction\<rparr>]
                     in if length results' \<ge> 2 then results'
                        else checkSpellingFast_loop knownWords line lineNumber results')
               else checkSpellingFast_loop knownWords line lineNumber results)
      else checkSpellingFast_loop knownWords line lineNumber results)"

definition checkSpellingFast :: "string \<Rightarrow> nat \<Rightarrow> CheckResult list" where
  "checkSpellingFast line lineNumber =
     checkSpellingFast_loop COMMON_MISSPELLINGS line lineNumber []"

text \<open>\<open>checkGrammarRulesFast\<close> over the active rule table: each rule's \<open>lastIndex\<close> is
  reset, the rule is run once, and the loop stops as soon as three results are
  collected.\<close>

fun checkGrammarRulesFast_loop ::
  "GrammarRule list \<Rightarrow> string \<Rightarrow> nat \<Rightarrow> CheckResult list \<Rightarrow> CheckResult list" where
  "checkGrammarRulesFast_loop [] line lineNumber results = results"
| "checkGrammarRulesFast_loop (rule # rules) line lineNumber results =
     (case regexp_exec (gr_pattern rule) line 0 of
        Some m \<Rightarrow>
          (let results' = results @
                 [\<lparr>cr_type = gr_type rule, cr_message = gr_message rule,
                   cr_line = lineNumber, cr_column = m_index m + 1, cr_suggestion = None\<rparr>]
           in if length results' \<ge> 3 then results'
              else checkGrammarRulesFast_loop rules line lineNumber results')
      | None \<Rightarrow> checkGrammarRulesFast_loop rules line lineNumber results)"

definition checkGrammarRulesFast :: "GrammarRule list \<Rightarrow> string \<Rightarrow> nat \<Rightarrow> CheckResult list" where
  "checkGrammarRulesFast rules line lineNumber =
     checkGrammarRulesFast_loop rules line lineNumber []"

definition processLineFast :: "GrammarRule list \<Rightarrow> string \<Rightarrow> nat \<Rightarrow> CheckResult list" where
  "processLineFast rules line lineNumber =
     checkSpellingFast line lineNumber @ checkGrammarRulesFast rules line lineNumber"

text \<open>What one entry of the misspelling table reports for a line, in the words of the
  specification: the word is searched in the lower-cased line, the characters before and
  after its first occurrence must not be word characters (an end of the line counts as
  none), and the column is the 1-based index of the occurrence.\<close>

definition spelling_hit :: "string \<Rightarrow> nat \<Rightarrow> string \<times> string \<Rightarrow> CheckResult option" where
  "spelling_hit line lineNumber entry =
     (case index_in (fst entry) (toLowerCase line) of
        None \<Rightarrow> None
      | Some i \<Rightarrow>
          if (i = 0 \<or> \<not> is_word (line ! (i - 1))) \<and>
             (length line \<le> i + length (fst entry) \<or> \<not> is_word (line ! (i + length (fst entry))))
          then Some \<lparr>cr_type = SPELLING, cr_message = spelling_message (fst entry) (snd entry),
                     cr_line = lineNumber, cr_column = i + 1, cr_suggestion = Some (snd entry)\<rparr>
          else None)"

text \<open>What one pattern rule reports for a line: its first match, if it has one, with the
  column the 1-based index of the match.\<close>

definition rule_hit :: "string \<Rightarrow> nat \<Rightarrow> GrammarRule \<Rightarrow> CheckResult option" where
  "rule_hit line lineNumber rule =
     (case exec_from (rx_ignoreCase (gr_pattern rule)) line (rx_ast (gr_pattern rule)) 0 of
        None \<Rightarrow> None
      | Some m \<Rightarrow>
          Some \<lparr>cr_type = gr_type rule, cr_message = gr_message rule, cr_line = lineNumber,
                 cr_column = m_index m + 1, cr_suggestion = None\<rparr>)"

section \<open>Style rule engine\<close>

record Suggestion =
  sg_type :: string
  sg_message :: string
  sg_explanation :: string
  sg_severity :: string
  sg_line :: nat
  sg_column :: nat
  sg_suggestion :: "string option"

text \<open>A style rule. Its optional \<open>replacement\<close> is a function of the match (the input
  line and the match in it) that returns a text or throws.\<close>

record StyleRule =
  sr_type :: string
  sr_pattern :: js_regexp
  sr_message :: string
  sr_explanation :: string
  sr_severity :: string
  sr_replacement :: "(string \<Rightarrow> regex_match \<Rightarrow> js_error + string) option"




text \<open>The pattern \<open>/(.+)\s+was written by\s+(.+)/\<close> of the catch path.\<close>

definition written_by_parts :: regex where
  "written_by_parts =
     seqs [Group 1 (Plus dot), ws1, str ''was written by'', ws1, Group 2 (Plus dot)]"

text \<open>The body of the loop of \<open>checkStyleRules\<close>: the suggestion for one match of one
  rule, with the replacement text when the rule has a replacement. When the replacement
  function throws, the catch path covers the passive-voice rule and leaves the suggestion
  without replacement text otherwise.\<close>

definition style_suggestion :: "StyleRule \<Rightarrow> string \<Rightarrow> nat \<Rightarrow> regex_match \<Rightarrow> Suggestion" where
  "style_suggestion rule line lineNumber m =
     (let suggestion =
            \<lparr>sg_type = sr_type rule, sg_message = sr_message rule,
             sg_explanation = sr_explanation rule, sg_severity = sr_severity rule,
             sg_line = lineNumber, sg_column = m_index m + 1, sg_suggestion = None\<rparr>
      in case sr_replacement rule of
           None \<Rightarrow> suggestion
         | Some replacement \<Rightarrow>
             if sr_type rule = ''wordiness'' \<and>
                str_includes (toLowerCase (match_text line m)) ''in order to''
             then suggestion\<lparr>sg_suggestion :=
                    Some (replace_all True line (str ''in order to'') (\<lambda>_. ''To''))\<rparr>
             else (case replacement line m of
                     Inr text \<Rightarrow> suggestion\<lparr>sg_suggestion := Some text\<rparr>
                   | Inl err \<Rightarrow>
                       if sr_type rule = ''passive-voice'' \<and>
                          str_includes (match_text line m) ''was written by''
                       then (let text = match_text line m in
                             case exec_from False text written_by_parts 0 of
                               Some parts \<Rightarrow>
                                 (case group_text text parts 2 of
                                    Some agent \<Rightarrow>
                                      suggestion\<lparr>sg_suggestion := Some (agent @ '' wrote the report'')\<rparr>
                                  | None \<Rightarrow>
                                      suggestion\<lparr>sg_suggestion := Some ''undefined wrote the report''\<rparr>)
                             | None \<Rightarrow> suggestion)
                       else suggestion))"

text \<open>The loop \<open>while ((match = regex.exec(line)) !== null)\<close> for one rule, on a fresh
  copy of the rule's pattern. A pattern without the \<open>g\<close> flag leaves the loop after its first
  match. With the \<open>g\<close> flag \<open>exec\<close> continues at the end of the last match; a match that
  ends where the search started leaves \<open>lastIndex\<close> unchanged, and the loop then never
  returns, which is the value \<open>None\<close>.\<close>

function style_rule_matches ::
  "StyleRule \<Rightarrow> string \<Rightarrow> nat \<Rightarrow> nat \<Rightarrow> Suggestion list option" where
  "style_rule_matches rule line lineNumber lastIndex =
     (case regexp_exec (sr_pattern rule) line lastIndex of
        None \<Rightarrow> Some []
      | Some m \<Rightarrow>
          if \<not> rx_global (sr_pattern rule) then Some [style_suggestion rule line lineNumber m]
          else if m_end m = lastIndex then None
          else map_option (Cons (style_suggestion rule line lineNumber m))
                 (style_rule_matches rule line lineNumber (m_end m)))"
  by pat_completeness auto
termination
proof (relation "measure (\<lambda>(rule, line, lineNumber, lastIndex). length line - lastIndex)")
  show "wf (measure (\<lambda>(rule, line, lineNumber, lastIndex). length line - lastIndex))"
    by simp
next
  fix rule :: StyleRule and line :: string and lineNumber lastIndex :: nat and m
  assume m: "regexp_exec (sr_pattern rule) line lastIndex = Some m"
    and g: "\<not> \<not> rx_global (sr_pattern rule)" and ne: "m_end m \<noteq> lastIndex"
  from m g have "exec_from (rx_ignoreCase (sr_pattern rule)) line (rx_ast (sr_pattern rule)) lastIndex
      = Some m"
    by (simp add: regexp_exec_def)
  from exec_from_bounds [OF this] ne
  show "((rule, line, lineNumber, m_end m), rule, line, lineNumber, lastIndex)
      \<in> measure (\<lambda>(rule, line, lineNumber, lastIndex). length line - lastIndex)"
    by auto
qed

declare style_rule_matches.simps [simp del]

text \<open>\<open>checkStyleRules\<close>: the rules of the active table in order.\<close>

fun checkStyleRules :: "StyleRule list \<Rightarrow> string \<Rightarrow> nat \<Rightarrow> Suggestion list option" where
  "checkStyleRules [] line lineNumber = Some []"
| "checkStyleRules (rule # rules) line lineNumber =
     (case style_rule_matches rule line lineNumber 0 of
        None \<Rightarrow> None
      | Some found \<Rightarrow> map_option (append found) (checkStyleRules rules line lineNumber))"

section \<open>Reconfiguration of the rule tables\<close>




definition or_empty :: "string option \<Rightarrow> string" where
  "or_empty v = (case v of None \<Rightarrow> [] | Some s \<Rightarrow> s)"

text \<open>The decimal digits of a number, as a template literal prints an index.\<close>

function show_nat :: "nat \<Rightarrow> string" where
  "show_nat n =
     (if n < 10 then [char_of (48 + n)] else show_nat (n div 10) @ [char_of (48 + n mod 10)])"
  by pat_completeness auto
termination
  by (relation "measure id") auto

declare show_nat.simps [simp del]















section \<open>The grammar check and its result cache\<close>

text \<open>
  \<open>processingCache\<close> is a \<open>Map\<close> from the trimmed text to the results: its entries in
  insertion order. Each \<open>setCachedResult\<close> also starts a timer that deletes the key after
  \<open>CACHE_TTL\<close>; the state keeps the keys of the timers that have not fired yet.
\<close>

record engine_state =
  processingCache :: "(string \<times> CheckResult list) list"
  expiryTimers :: "string list"

definition CACHE_SIZE_LIMIT :: nat where
  "CACHE_SIZE_LIMIT = 100"

definition initial_state :: engine_state where
  "initial_state = \<lparr>processingCache = [], expiryTimers = []\<rparr>"

text \<open>\<open>Map.get\<close>, \<open>Map.set\<close> (a key that is present keeps its place) and \<open>Map.delete\<close>.\<close>

definition map_get :: "(string \<times> 'v) list \<Rightarrow> string \<Rightarrow> 'v option" where
  "map_get entries key = map_of entries key"

fun map_set :: "(string \<times> 'v) list \<Rightarrow> string \<Rightarrow> 'v \<Rightarrow> (string \<times> 'v) list" where
  "map_set [] key v = [(key, v)]"
| "map_set ((k, w) # entries) key v =
     (if k = key then (k, v) # entries else (k, w) # map_set entries key v)"

definition map_delete :: "(string \<times> 'v) list \<Rightarrow> string \<Rightarrow> (string \<times> 'v) list" where
  "map_delete entries key = filter (\<lambda>entry. fst entry \<noteq> key) entries"

text \<open>\<open>getCachedResult\<close>: an array is truthy, so every cached entry is returned.\<close>

definition getCachedResult :: "engine_state \<Rightarrow> string \<Rightarrow> CheckResult list option" where
  "getCachedResult st text = map_get (processingCache st) text"

text \<open>\<open>setCachedResult\<close>: at the size limit the oldest key is deleted first (unless it is
  the empty string, which is falsy); then the entry is set and its expiry timer started.\<close>

definition setCachedResult :: "engine_state \<Rightarrow> string \<Rightarrow> CheckResult list \<Rightarrow> engine_state" where
  "setCachedResult st text result =
     (let cache = processingCache st;
          cache' = (if length cache \<ge> CACHE_SIZE_LIMIT
                    then (case cache of
                            [] \<Rightarrow> cache
                          | (firstKey, _) # _ \<Rightarrow>
                              if firstKey \<noteq> [] then map_delete cache firstKey else cache)
                    else cache)
      in \<lparr>processingCache = map_set cache' text result,
          expiryTimers = expiryTimers st @ [text]\<rparr>)"

text \<open>An expiry timer fires: \<open>processingCache.delete(text)\<close>.\<close>

definition timer_fires :: "engine_state \<Rightarrow> string \<Rightarrow> engine_state" where
  "timer_fires st text =
     (if text \<in> set (expiryTimers st)
      then \<lparr>processingCache = map_delete (processingCache st) text,
            expiryTimers = remove1 text (expiryTimers st)\<rparr>
      else st)"

text \<open>The loop over the lines of a text, with the index of the line.\<close>

fun processLines :: "GrammarRule list \<Rightarrow> string list \<Rightarrow> nat \<Rightarrow> CheckResult list" where
  "processLines rules [] i = []"
| "processLines rules (line # lines) i =
     processLineFast rules line (i + 1) @ processLines rules lines (Suc i)"

text \<open>\<open>checkGrammar\<close> on the active rule table and the engine state: its results and the
  state it leaves. The cache is looked up and filled under the trimmed text, and the lines
  that are checked are those of the text as given.\<close>

definition checkGrammar ::
  "GrammarRule list \<Rightarrow> engine_state \<Rightarrow> string \<Rightarrow> CheckResult list \<times> engine_state" where
  "checkGrammar rules st sentence =
     (if sentence = [] \<or> length (trim sentence) = 0 then ([], st)
      else let trimmedSentence = trim sentence in
           case getCachedResult st trimmedSentence of
             Some cachedResult \<Rightarrow> (cachedResult, st)
           | None \<Rightarrow>
               (let results = (if \<not> str_includes sentence [CHR 0x0A]
                               then processLineFast rules sentence 1
                               else processLines rules (split_char (CHR 0x0A) sentence) 0)
                in (results, setCachedResult st trimmedSentence results)))"

text \<open>\<open>checkSentenceLength\<close> and \<open>suggestStyle\<close>. \<open>line.split(/[.!?]+/)\<close> gives the pieces
  between the runs of sentence-ending characters.\<close>

function split_runs_from :: "(char \<Rightarrow> bool) \<Rightarrow> string \<Rightarrow> string \<Rightarrow> string list" where
  "split_runs_from sep cur [] = [rev cur]"
| "split_runs_from sep cur (c # cs) =
     (if sep c then rev cur # split_runs_from sep [] (dropWhile sep cs)
      else split_runs_from sep (c # cur) cs)"
  by pat_completeness auto
termination
  by (relation "measure (\<lambda>(sep, cur, s). length s)") (auto simp: le_imp_less_Suc length_dropWhile_le)

definition split_runs :: "(char \<Rightarrow> bool) \<Rightarrow> string \<Rightarrow> string list" where
  "split_runs sep s = split_runs_from sep [] s"

definition checkSentenceLength :: "string \<Rightarrow> nat \<Rightarrow> Suggestion list" where
  "checkSentenceLength line lineNumber =
     List.map_filter
       (\<lambda>sentence.
          let trimmed = trim sentence in
          if length trimmed > 100
          then Some \<lparr>sg_type = ''sentence-length'',
                     sg_message = ''Consider breaking this long sentence into shorter ones'',
                     sg_explanation = ''Shorter sentences improve readability and comprehension'',
                     sg_severity = ''warning'', sg_line = lineNumber,
                     sg_column = nat (indexOf line trimmed 0 + 1), sg_suggestion = None\<rparr>
          else None)
       (split_runs is_sentence_end line)"

fun suggestStyle_lines :: "StyleRule list \<Rightarrow> string list \<Rightarrow> nat \<Rightarrow> Suggestion list option" where
  "suggestStyle_lines rules [] lineIndex = Some []"
| "suggestStyle_lines rules (line # lines) lineIndex =
     (let lineNumber = lineIndex + 1 in
      case checkStyleRules rules line lineNumber of
        None \<Rightarrow> None
      | Some styleSuggestions \<Rightarrow>
          map_option (append (checkSentenceLength line lineNumber @ styleSuggestions))
            (suggestStyle_lines rules lines (Suc lineIndex)))"

definition suggestStyle :: "StyleRule list \<Rightarrow> string \<Rightarrow> Suggestion list option" where
  "suggestStyle rules text =
     (if text = [] \<or> length (trim text) = 0 then Some []
      else suggestStyle_lines rules (split_char (CHR 0x0A) text) 0)"

text \<open>A sequence of calls of \<open>checkGrammar\<close>, each on the state the call before left: the
  results of the calls, in order.\<close>

fun checkGrammar_calls ::
  "GrammarRule list \<Rightarrow> engine_state \<Rightarrow> string list \<Rightarrow> CheckResult list list" where
  "checkGrammar_calls rules st [] = []"
| "checkGrammar_calls rules st (sentence # sentences) =
     (case checkGrammar rules st sentence of
        (results, st') \<Rightarrow> results # checkGrammar_calls rules st' sentences)"

section \<open>Tone detector\<close>

record ToneResult =
  tr_tone :: string
  tr_score :: rat

record tone_lexicon =
  tl_words :: "string list"
  tl_patterns :: "regex list"

text \<open>\<open>TONE_LEXICONS\<close>, in the order of its keys. Its patterns carry the \<open>i\<close> flag and no
  \<open>g\<close> flag.\<close>

definition TONE_LEXICONS :: "(string \<times> tone_lexicon) list" where
  "TONE_LEXICONS =
     [(''formal'',
       \<lparr>tl_words = [''therefore'', ''furthermore'', ''consequently'', ''moreover'',
                     ''nevertheless'', ''however'', ''accordingly'', ''thus'', ''hence'',
                     ''regarding'', ''concerning'', ''pursuant'', ''notwithstanding''],
        tl_patterns =
          [seqs [WordBoundary,
                 word_group 1 [''it is'', ''one must'', ''it would be'', ''it should be''],
                 WordBoundary],
           seqs [WordBoundary,
                 word_group 1 [''in conclusion'', ''in summary'', ''to summarize''],
                 WordBoundary]]\<rparr>),
      (''informal'',
       \<lparr>tl_words = [''gonna'', ''wanna'', ''gotta'', ''yeah'', ''nope'', ''ok'', ''okay'', ''cool'',
                     ''awesome'', ''totally'', ''basically'', ''like'', ''you know'', ''kinda'',
                     ''sorta''],
        tl_patterns =
          [seqs [WordBoundary,
                 word_group 1 [''don't'', ''won't'', ''can't'', ''isn't'', ''aren't''],
                 WordBoundary],
           seqs [WordBoundary, word_group 1 [''what's up'', ''hey there'', ''sup''],
                 WordBoundary]]\<rparr>),
      (''friendly'',
       \<lparr>tl_words = [''thanks'', ''please'', ''appreciate'', ''wonderful'', ''great'', ''amazing'',
                     ''fantastic'', ''lovely'', ''nice'', ''kind'', ''helpful'', ''welcome'',
                     ''enjoy'', ''hope''],
        tl_patterns =
          [seqs [WordBoundary,
                 word_group 1 [''thank you'', ''thanks so much'', ''really appreciate''],
                 WordBoundary],
           seqs [WordBoundary, word_group 1 [''hope you'', ''wish you'', ''looking forward''],
                 WordBoundary]]\<rparr>),
      (''professional'',
       \<lparr>tl_words = [''deliver'', ''implement'', ''execute'', ''optimize'', ''analyze'',
                     ''strategic'', ''efficient'', ''effective'', ''comprehensive'', ''solution'',
                     ''objective'', ''stakeholder'', ''collaborate'', ''synergy''],
        tl_patterns =
          [seqs [WordBoundary,
                 word_group 1 [''best practices'', ''industry standard'', ''key performance''],
                 WordBoundary],
           seqs [WordBoundary,
                 word_group 1 [''moving forward'', ''next steps'', ''action items''],
                 WordBoundary]]\<rparr>)]"

text \<open>The number of capturing groups of a pattern.\<close>

fun group_count :: "regex \<Rightarrow> nat" where
  "group_count (Seq a b) = group_count a + group_count b"
| "group_count (Alt a b) = group_count a + group_count b"
| "group_count (Star r) = group_count r"
| "group_count (LazyPlus r) = group_count r"
| "group_count (Group k r) = Suc (group_count r)"
| "group_count (Ahead r) = group_count r"
| "group_count r = 0"

text \<open>\<open>(text.match(regex) || []).length\<close>: with the \<open>g\<close> flag the number of matches;
  without it the length of the match array, which holds the match and one entry for each
  capturing group.\<close>

definition global_match_count :: "bool \<Rightarrow> string \<Rightarrow> regex \<Rightarrow> nat" where
  "global_match_count ci s r = length (all_matches ci s r 0)"

definition match_array_length :: "bool \<Rightarrow> string \<Rightarrow> regex \<Rightarrow> nat" where
  "match_array_length ci s r =
     (case exec_from ci s r 0 of None \<Rightarrow> 0 | Some m \<Rightarrow> 1 + group_count r)"

text \<open>The score of one tone before normalisation: the word hits, and twice what each
  pattern counts.\<close>

definition tone_raw_score :: "tone_lexicon \<Rightarrow> string \<Rightarrow> nat" where
  "tone_raw_score lexicon text =
     sum_list (map (\<lambda>word. global_match_count True text (whole_word word)) (tl_words lexicon)) +
     sum_list (map (\<lambda>pattern. match_array_length True text pattern * 2) (tl_patterns lexicon))"

text \<open>The score normalised by the word count. The numbers are JavaScript doubles; they are
  modelled as rationals.\<close>

definition tone_normalized_score :: "nat \<Rightarrow> nat \<Rightarrow> rat" where
  "tone_normalized_score score wordCount =
     (if wordCount \<le> 10
      then min 1 (of_nat score / max 1 (of_nat wordCount * (5 / 100)))
      else min 1 (of_nat score / max 1 (of_nat wordCount * (8 / 100))))"

text \<open>The loop over the tone categories: a tone above the threshold is pushed, with a
  score of at least 0.1.\<close>

fun detectTone_loop :: "(string \<times> tone_lexicon) list \<Rightarrow> string \<Rightarrow> nat \<Rightarrow> ToneResult list" where
  "detectTone_loop [] text wordCount = []"
| "detectTone_loop ((toneName, lexicon) # rest) text wordCount =
     (let normalizedScore = tone_normalized_score (tone_raw_score lexicon text) wordCount
      in if normalizedScore > 5 / 100
         then \<lparr>tr_tone = toneName, tr_score = max (1 / 10) normalizedScore\<rparr>
              # detectTone_loop rest text wordCount
         else detectTone_loop rest text wordCount)"

text \<open>\<open>detectTone\<close> on a table of lexicons: the detected tones sorted by descending score
  (the sort is stable), then every tone that is missing, with score 0. Nothing inside the
  \<open>try\<close> throws.\<close>

definition detectTone_with :: "(string \<times> tone_lexicon) list \<Rightarrow> string \<Rightarrow> ToneResult list" where
  "detectTone_with lexicons text =
     (if text = [] then []
      else if length (trim text) = 0 then []
      else let wordCount = length (split_ws text);
               results = detectTone_loop lexicons text wordCount;
               sortedResults = sort_key (\<lambda>r. - tr_score r) results;
               existingTones = set (map tr_tone sortedResults)
           in sortedResults @
              map (\<lambda>tone. \<lparr>tr_tone = tone, tr_score = 0\<rparr>)
                (filter (\<lambda>tone. tone \<notin> existingTones) (map fst lexicons)))"

definition detectTone :: "string \<Rightarrow> ToneResult list" where
  "detectTone text = detectTone_with TONE_LEXICONS text"

text \<open>A tone is detected when its normalised score is above the threshold 0.05.\<close>

definition tone_detected :: "string \<Rightarrow> nat \<Rightarrow> tone_lexicon \<Rightarrow> bool" where
  "tone_detected input wordCount lexicon =
     (tone_normalized_score (tone_raw_score lexicon input) wordCount > 5 / 100)"

section \<open>Tokenizer and part-of-speech tagger\<close>









section \<open>Custom entities from the dictionary\<close>

text \<open>\<open>processCustomEntities\<close> of the grammar engine, on the words that
  \<open>dictionaryStore.listWords()\<close> returned. An entry that does not start with \<open>entity:\<close>, has
  fewer than three parts or names no token gives no span.\<close>

definition custom_entity :: "token list \<Rightarrow> string \<Rightarrow> entity option" where
  "custom_entity tokens word =
     (let parts = split_char CHR '':'' word in
      if length parts \<ge> 3
      then (let type = parts ! 1; val = parts ! 2 in
            case find (\<lambda>t. toLowerCase (tok_text t) = toLowerCase val) tokens of
              Some entityToken \<Rightarrow>
                (let start = getOptimizedOffset entityToken tokens in
                 Some \<lparr>ent_text = tok_text entityToken,
                       ent_type = toUpperCase type,
                       ent_start = (if start \<ge> 0 then start else -1),
                       ent_end = (if start \<ge> 0 then start + int (length (tok_text entityToken))
                                  else -1)\<rparr>)
            | None \<Rightarrow> None)
      else None)"

definition processCustomEntities :: "string list \<Rightarrow> token list \<Rightarrow> entity list" where
  "processCustomEntities words tokens =
     List.map_filter (custom_entity tokens)
       (filter (\<lambda>word. startsWith word ''entity:'') words)"

text \<open>The same step inside \<open>entityRecognizer\<close> of the NLP service.\<close>

definition nlp_custom_entity :: "token list \<Rightarrow> string \<Rightarrow> entity option" where
  "nlp_custom_entity tokens word =
     (let parts = split_char CHR '':'' word in
      if length parts \<ge> 3
      then (let type = parts ! 1; val = parts ! 2 in
            case find (\<lambda>t. toLowerCase (tok_text t) = toLowerCase val) tokens of
              Some entityText \<Rightarrow>
                Some \<lparr>ent_text = val, ent_type = type, ent_start = -1, ent_end = -1\<rparr>
            | None \<Rightarrow> None)
      else None)"

definition nlp_customEntities :: "string list \<Rightarrow> token list \<Rightarrow> entity list" where
  "nlp_customEntities words tokens =
     List.map_filter (nlp_custom_entity tokens)
       (filter (\<lambda>word. startsWith word ''entity:'') words)"

section \<open>Rewrite engine\<close>

text \<open>A token enriched with its synonyms, as \<open>processText\<close> of the NLP service returns
  it.\<close>

record enhanced_token =
  et_text :: string
  et_pos :: string
  et_synonyms :: "string list"

text \<open>\<open>s.charAt(0).toUpperCase() + s.slice(1).toLowerCase()\<close>.\<close>

definition capitalize_rest_lower :: "string \<Rightarrow> string" where
  "capitalize_rest_lower s = toUpperCase (take 1 s) @ toLowerCase (drop 1 s)"

text \<open>The tone filter on a list of synonyms: long words for the formal tone, short words
  for the casual tone.\<close>

definition tone_filter :: "string option \<Rightarrow> string list \<Rightarrow> string list" where
  "tone_filter tone synonyms =
     (if tone = Some ''formal'' then filter (\<lambda>syn. length syn > 4) synonyms
      else if tone = Some ''casual'' then filter (\<lambda>syn. length syn \<le> 6) synonyms
      else synonyms)"

text \<open>The callback of \<open>tokens.map\<close> in \<open>generateSynonymRewrite\<close>. Reading the first
  character of an empty token text gives \<open>undefined\<close>, and calling \<open>toUpperCase\<close> on it
  is a \<open>TypeError\<close>.\<close>

definition rewrite_token :: "string option \<Rightarrow> enhanced_token \<Rightarrow> js_error + string" where
  "rewrite_token tone tk =
     (if et_pos tk \<in> set [''Noun'', ''Verb'', ''Adjective'', ''Adverb''] \<and> length (et_synonyms tk) > 0
      then (case tone_filter tone (et_synonyms tk) of
              [] \<Rightarrow> Inr (et_text tk)
            | synonym # _ \<Rightarrow>
                (case et_text tk of
                   [] \<Rightarrow> Inl TypeError
                 | c # _ \<Rightarrow> if c = upper_char c then Inr (capitalize_rest_lower synonym)
                            else Inr (toLowerCase synonym)))
      else Inr (et_text tk))"

fun map_throwing :: "('a \<Rightarrow> js_error + 'b) \<Rightarrow> 'a list \<Rightarrow> js_error + 'b list" where
  "map_throwing f [] = Inr []"
| "map_throwing f (x # xs) =
     (case f x of
        Inl e \<Rightarrow> Inl e
      | Inr y \<Rightarrow> (case map_throwing f xs of Inl e \<Rightarrow> Inl e | Inr ys \<Rightarrow> Inr (y # ys)))"

definition generateSynonymRewrite :: "enhanced_token list \<Rightarrow> string option \<Rightarrow> js_error + string" where
  "generateSynonymRewrite tokens tone =
     (case map_throwing (rewrite_token tone) tokens of
        Inl e \<Rightarrow> Inl e
      | Inr rewrittenTokens \<Rightarrow> Inr (join '' '' rewrittenTokens))"

text \<open>\<open>generateFallbackSynonymRewrite\<close>: the fixed synonym map, in the order of its keys,
  and the loop over it with the running \<open>result\<close>.\<close>

definition fallback_synonymMap :: "(string \<times> string list) list" where
  "fallback_synonymMap =
     [(''large'', [''big'', ''huge'', ''enormous'', ''massive'']),
      (''beautiful'', [''gorgeous'', ''stunning'', ''lovely'', ''attractive'']),
      (''building'', [''structure'', ''edifice'', ''construction'', ''facility'']),
      (''quick'', [''fast'', ''rapid'', ''swift'', ''speedy'']),
      (''excellent'', [''outstanding'', ''superb'', ''remarkable'', ''exceptional''])]"

definition fallback_choice :: "string option \<Rightarrow> string list \<Rightarrow> string" where
  "fallback_choice tone synonyms =
     (let synonym = (case synonyms of [] \<Rightarrow> ''undefined'' | first # _ \<Rightarrow> first) in
      if tone = Some ''formal'' \<and> length synonyms > 1
      then (case filter (\<lambda>syn. length syn > 4) synonyms of [] \<Rightarrow> synonym | f # _ \<Rightarrow> f)
      else if tone = Some ''casual'' \<and> length synonyms > 1
      then (case filter (\<lambda>syn. length syn \<le> 6) synonyms of [] \<Rightarrow> synonym | c # _ \<Rightarrow> c)
      else synonym)"

fun fallback_loop :: "(string \<times> string list) list \<Rightarrow> string option \<Rightarrow> string \<Rightarrow> string" where
  "fallback_loop [] tone result = result"
| "fallback_loop ((word, synonyms) # rest) tone result =
     (if exec_from True result (whole_word word) 0 \<noteq> None
      then (let synonym = fallback_choice tone synonyms in
            fallback_loop rest tone
              (replace_all True result (whole_word word)
                 (\<lambda>m. case match_text result m of
                         [] \<Rightarrow> toLowerCase synonym
                       | c # _ \<Rightarrow> if c = upper_char c then capitalize_rest_lower synonym
                                  else toLowerCase synonym)))
      else fallback_loop rest tone result)"

definition generateFallbackSynonymRewrite :: "string \<Rightarrow> string option \<Rightarrow> string" where
  "generateFallbackSynonymRewrite sentence tone = fallback_loop fallback_synonymMap tone sentence"

text \<open>\<open>convertToActiveVerb\<close>.\<close>

definition irregularVerbs :: "(string \<times> string) list" where
  "irregularVerbs =
     [(''written'', ''wrote''), (''taken'', ''took''), (''given'', ''gave''), (''spoken'', ''spoke''),
      (''done'', ''did''), (''made'', ''made''), (''built'', ''built''), (''created'', ''created''),
      (''developed'', ''developed''), (''implemented'', ''implemented''),
      (''designed'', ''designed''), (''established'', ''established''),
      (''conducted'', ''conducted''), (''performed'', ''performed''), (''executed'', ''executed''),
      (''completed'', ''completed''), (''analyzed'', ''analyzed''), (''handled'', ''handled''),
      (''managed'', ''managed''), (''controlled'', ''controlled''), (''directed'', ''directed''),
      (''supervised'', ''supervised''), (''operated'', ''operated''),
      (''maintained'', ''maintained'')]"

definition drop_last :: "nat \<Rightarrow> string \<Rightarrow> string" where
  "drop_last n s = take (length s - n) s"

definition convertToActiveVerb :: "string \<Rightarrow> string \<Rightarrow> string" where
  "convertToActiveVerb verb auxiliary =
     (case map_of irregularVerbs verb of
        Some active \<Rightarrow> active
      | None \<Rightarrow>
          if endsWith verb ''ed''
          then (if auxiliary = ''is'' \<or> auxiliary = ''are''
                then (if endsWith verb ''ied'' then drop_last 3 verb @ ''y''
                      else if endsWith verb ''pped'' \<or> endsWith verb ''tted'' \<or> endsWith verb ''nned''
                      then drop_last 3 verb
                      else drop_last 2 verb)
                else verb)
          else verb)"

text \<open>The four passive-voice patterns of \<open>generateStructureRewrites\<close> (with the \<open>i\<close>
  flag): group 1 is the subject, 2 the auxiliary, 3 the participle and 4 the agent.\<close>

definition past_participles :: "string list" where
  "past_participles =
     [''written'', ''completed'', ''analyzed'', ''done'', ''made'', ''given'', ''taken'', ''spoken'',
      ''created'', ''developed'', ''implemented'', ''designed'', ''built'', ''established'',
      ''formed'', ''conducted'', ''performed'', ''executed'', ''delivered'', ''processed'',
      ''handled'', ''managed'', ''controlled'', ''directed'', ''supervised'', ''operated'',
      ''maintained'']"

definition ed_word :: regex where
  "ed_word = Seq word1 (str ''ed'')"

definition passivePatterns :: "regex list" where
  "passivePatterns =
     [seqs [Group 1 (LazyPlus dot), ws1, word_group 2 [''was'', ''were'', ''is'', ''are''], ws1,
            word_group 3 past_participles, ws1, str ''by'', ws1, Group 4 (Plus dot)],
      seqs [Group 1 (LazyPlus dot), ws1, word_group 2 [''was'', ''were'', ''is'', ''are''], ws1,
            Group 3 ed_word, ws1, str ''by'', ws1, Group 4 (Plus dot)],
      seqs [Group 1 (LazyPlus dot), ws1, word_group 2 [''is'', ''are'', ''was'', ''were''], ws1,
            str ''being'', ws1, Group 3 ed_word, ws1, str ''by'', ws1, Group 4 (Plus dot)],
      seqs [Group 1 (LazyPlus dot), ws1, word_group 2 [''have'', ''has''], ws1,
            str ''been'', ws1, Group 3 ed_word, ws1, str ''by'', ws1, Group 4 (Plus dot)]]"

text \<open>The active version that is built from a match of a passive pattern.\<close>

definition active_version :: "string \<Rightarrow> string \<Rightarrow> string \<Rightarrow> string \<Rightarrow> string \<Rightarrow> string" where
  "active_version sentence subject auxiliary verb agent =
     (let activeVerb = convertToActiveVerb verb auxiliary;
          cleanAgent = trim (replace_first False (trim agent)
                               (seqs [str ''yesterday'', Opt (Lit CHR ''.''), LineEnd]) (\<lambda>_. []));
          cleanSubject = toLowerCase (trim subject);
          timeReference = (if str_includes sentence ''yesterday'' then '' yesterday''
                           else if str_includes sentence ''today'' then '' today''
                           else if str_includes sentence ''tomorrow'' then '' tomorrow''
                           else [])
      in toUpperCase (take 1 cleanAgent) @ drop 1 cleanAgent @ '' '' @ activeVerb @ '' ''
         @ cleanSubject @ timeReference @ ''.'')"

text \<open>The loop over the passive patterns: the first pattern that matches is the only one
  processed.\<close>

fun passive_rewrites :: "regex list \<Rightarrow> string \<Rightarrow> string list" where
  "passive_rewrites [] sentence = []"
| "passive_rewrites (pattern # patterns) sentence =
     (case exec_from True sentence pattern 0 of
        None \<Rightarrow> passive_rewrites patterns sentence
      | Some passiveMatch \<Rightarrow>
          (let subject = or_empty (group_text sentence passiveMatch 1);
               auxiliary = or_empty (group_text sentence passiveMatch 2);
               verb = or_empty (group_text sentence passiveMatch 3);
               agent = or_empty (group_text sentence passiveMatch 4)
           in if agent \<noteq> [] \<and> subject \<noteq> []
              then (let activeVersion = active_version sentence subject auxiliary verb agent in
                    if activeVersion \<noteq> sentence \<and> length (trim activeVersion) > 0
                    then [activeVersion] else [])
              else []))"

text \<open>Replacing every match of a literal text, with or without the \<open>i\<close> flag.\<close>

definition replace_literal :: "bool \<Rightarrow> string \<Rightarrow> string \<Rightarrow> string \<Rightarrow> string" where
  "replace_literal ci s pattern replacement = replace_all ci s (str pattern) (\<lambda>_. replacement)"

definition wordyPatterns :: "(string \<times> string) list" where
  "wordyPatterns =
     [(''in order to'', ''to''), (''due to the fact that'', ''because''),
      (''for the reason that'', ''because''), (''in spite of the fact that'', ''although''),
      (''with regard to'', ''about''), (''give consideration to'', ''consider''),
      (''make a decision'', ''decide''), (''reach a conclusion'', ''conclude'')]"

definition contractions :: "(string \<times> string) list" where
  "contractions =
     [(''can't'', ''cannot''), (''don't'', ''do not''), (''won't'', ''will not''),
      (''it's'', ''it is''), (''we're'', ''we are''), (''they're'', ''they are''),
      (''isn't'', ''is not''), (''aren't'', ''are not'')]"

definition casual_phrases :: "(string \<times> string) list" where
  "casual_phrases =
     [(''requires immediate attention'', ''needs quick action''),
      (''careful analysis'', ''a good look''), (''comprehensive'', ''thorough''),
      (''utilize'', ''use''), (''demonstrate'', ''show''), (''facilitate'', ''help''),
      (''accomplish'', ''do'')]"

definition replace_each :: "bool \<Rightarrow> (string \<times> string) list \<Rightarrow> string \<Rightarrow> string" where
  "replace_each ci table s =
     fold (\<lambda>(pattern, replacement) version. replace_literal ci version pattern replacement) table s"

text \<open>\<open>generateStructureRewrites\<close>: the passive rewrite, the concise version, and the
  version for the tone; the final filter drops what equals the sentence or is blank.\<close>

definition generateStructureRewrites :: "string \<Rightarrow> string option \<Rightarrow> string list" where
  "generateStructureRewrites sentence tone =
     (let passive = passive_rewrites passivePatterns sentence;
          conciseVersion = replace_each True wordyPatterns sentence;
          concise = (if conciseVersion \<noteq> sentence then [conciseVersion] else []);
          toned =
            (if tone = Some ''polite''
             then (if \<not> str_includes sentence ''please'' \<and> \<not> str_includes sentence ''would'' \<and>
                      \<not> str_includes sentence ''could''
                   then [(if startsWith (toLowerCase sentence) ''send''
                          then ''Could you please '' else ''Would you please '')
                         @ toLowerCase sentence]
                   else [])
             else if tone = Some ''formal''
             then (let formalVersion = replace_each False contractions sentence in
                   if formalVersion \<noteq> sentence then [formalVersion] else [])
             else if tone = Some ''casual''
             then (let casualVersion = replace_each False casual_phrases sentence in
                   if casualVersion \<noteq> sentence then [casualVersion] else [])
             else [])
      in filter (\<lambda>r. r \<noteq> sentence \<and> length (trim r) > 0) (passive @ concise @ toned))"

text \<open>\<open>generateVariationRewrite\<close>.\<close>

definition variation_words :: "(string \<times> string) list" where
  "variation_words =
     [(''The'', ''A''), (''the'', ''a''), (''and'', ''plus''), (''over'', ''across''),
      (''jumps'', ''leaps'')]"

definition generateVariationRewrite :: "string \<Rightarrow> nat \<Rightarrow> string" where
  "generateVariationRewrite sentence variation =
     (let fallback = sentence @ '' (variant '' @ show_nat variation @ '')'' in
      if variation = 1
      then [''Additionally,'', ''Furthermore,'', ''Moreover,'', ''In addition,''] ! (variation mod 4)
           @ '' '' @ toLowerCase (take 1 sentence) @ drop 1 sentence
      else if variation = 2
      then (let modifiedSentence =
                  fold (\<lambda>(word, replacement) version.
                          replace_all False version (whole_word word) (\<lambda>_. replacement))
                    variation_words sentence
            in if modifiedSentence \<noteq> sentence then modifiedSentence
               else (let ws = split_char CHR '' '' sentence in
                     if length ws > 3
                     then (let rearranged = join '' '' (drop 1 ws) @ '' '' @ toLowerCase (hd ws)
                           in toUpperCase (take 1 rearranged) @ drop 1 rearranged)
                     else fallback))
      else fallback)"

text \<open>The loop \<open>while (rewrites.length < 3)\<close> of \<open>rewriteSentence\<close>: every pass pushes
  one more rewrite.\<close>

function rewrite_fill :: "string \<Rightarrow> string option \<Rightarrow> string list \<Rightarrow> string list" where
  "rewrite_fill sentence tone rewrites =
     (if length rewrites < 3
      then (if length rewrites = 1 \<and> generateFallbackSynonymRewrite sentence tone \<noteq> sentence
            then rewrite_fill sentence tone
                   (rewrites @ [generateFallbackSynonymRewrite sentence tone])
            else (let variation = generateVariationRewrite sentence (length rewrites) in
                  if length (trim variation) > 0 \<and> variation \<noteq> sentence
                  then rewrite_fill sentence tone (rewrites @ [variation])
                  else (let altSynonymRewrite = generateFallbackSynonymRewrite sentence tone in
                        if altSynonymRewrite \<noteq> sentence
                        then rewrite_fill sentence tone (rewrites @ [altSynonymRewrite])
                        else rewrite_fill sentence tone
                               (rewrites @ [sentence @ '' (enhanced '' @ show_nat (length rewrites)
                                            @ '')'']))))
      else rewrites)"
  by pat_completeness auto
termination
  by (relation "measure (\<lambda>(sentence, tone, rewrites). 3 - length rewrites)") auto

declare rewrite_fill.simps [simp del]

text \<open>
  \<open>rewriteSentence\<close>. \<open>enhance\<close> is \<open>processText\<close> of the NLP service, which returns the
  enriched tokens or throws; \<open>elapsed\<close> is the time in milliseconds that the two readings of
  \<open>performance.now()\<close> lie apart. What is thrown inside the \<open>try\<close> is caught and answered
  with three copies of the sentence.
\<close>

definition rewriteSentence ::
  "(string \<Rightarrow> js_error + enhanced_token list) \<Rightarrow> rat \<Rightarrow> string \<Rightarrow> string option \<Rightarrow> string list" where
  "rewriteSentence enhance elapsed sentence tone =
     (if sentence = [] then [[]]
      else if length (trim sentence) = 0 then [sentence]
      else case enhance sentence of
        Inl e \<Rightarrow> [sentence, sentence, sentence]
      | Inr tokens \<Rightarrow>
          (case generateSynonymRewrite tokens tone of
             Inl e \<Rightarrow> [sentence, sentence, sentence]
           | Inr synonymRewrite \<Rightarrow>
               (let rewrites0 = [sentence];
                    rewrites1 = (if synonymRewrite \<noteq> sentence \<and> length (trim synonymRewrite) > 0
                                 then rewrites0 @ [synonymRewrite] else rewrites0);
                    fallbackRewrite = generateFallbackSynonymRewrite sentence tone;
                    rewrites2 = (if fallbackRewrite \<noteq> sentence \<and> length (trim fallbackRewrite) > 0 \<and>
                                    fallbackRewrite \<notin> set rewrites1
                                 then rewrites1 @ [fallbackRewrite] else rewrites1);
                    structureRewrites = generateStructureRewrites sentence tone;
                    rewrites3 = rewrites2 @ filter (\<lambda>r. length (trim r) > 0) structureRewrites;
                    rewrites = rewrite_fill sentence tone rewrites3
                in if elapsed > 200 then [sentence, sentence, sentence]
                   else take 3 rewrites)))"

section \<open>Entity tokens: the earliest match\<close>

lemma split_ws_from_nonempty: "split_ws_from cur s \<noteq> []"
  by (induction cur s rule: split_ws_from.induct) auto

lemma split_ws_nonempty: "split_ws s \<noteq> []"
  by (simp add: split_ws_def split_ws_from_nonempty)

lemma split_ws_from_no_space:
  "\<forall>c\<in>set s. \<not> is_space c \<Longrightarrow> split_ws_from cur s = [rev cur @ s]"
  by (induction s arbitrary: cur) auto

lemma is_space_lower_char: "is_space (lower_char c) = is_space c"
  by (cases c) (auto simp: lower_char_def is_space_def is_upper_def)

lemma split_ws_single_word:
  "\<forall>c\<in>set s. \<not> is_space c \<Longrightarrow> split_ws (toLowerCase s) = [toLowerCase s]"
  by (simp add: split_ws_def toLowerCase_def split_ws_from_no_space is_space_lower_char)

lemma isTokenSequenceMatch_from_eq:
  "startIndex + i + length ws \<le> length tokens \<Longrightarrow>
   isTokenSequenceMatch_from tokens startIndex ws i =
     Inr (map (\<lambda>t. toLowerCase (tok_text t)) (take (length ws) (drop (startIndex + i) tokens)) = ws)"
proof (induction ws arbitrary: i)
  case Nil
  then show ?case by simp
next
  case (Cons w ws)
  from Cons.prems have lt: "startIndex + i < length tokens" by simp
  from Cons.prems have "startIndex + Suc i + length ws \<le> length tokens" by simp
  from Cons.IH [OF this] lt show ?case
    by (auto simp: take_Suc_conv_app_nth Cons_nth_drop_Suc [symmetric] simp del: drop_Suc_Cons)
qed

lemma isTokenSequenceMatch_eq:
  "i + length ws \<le> length tokens \<Longrightarrow>
   isTokenSequenceMatch tokens i ws = Inr (matches_at tokens ws i)"
  using isTokenSequenceMatch_from_eq [of i 0 ws tokens]
  by (simp add: isTokenSequenceMatch_def matches_at_def slice_def)

lemma findMatchingTokens_loop_found:
  "matches_at tokens ws m \<Longrightarrow> i \<le> m \<Longrightarrow> \<forall>j. i \<le> j \<and> j < m \<longrightarrow> \<not> matches_at tokens ws j \<Longrightarrow>
   findMatchingTokens_loop tokens ws i = Inr (slice tokens m (m + length ws))"
proof (induction tokens ws i rule: findMatchingTokens_loop.induct)
  case (1 tokens ws i)
  from "1.prems" have bound: "m + length ws \<le> length tokens" by (simp add: matches_at_def)
  with "1.prems" have ib: "i + length ws \<le> length tokens" by simp
  show ?case
  proof (cases "i = m")
    case True
    with ib "1.prems" show ?thesis
      by (subst findMatchingTokens_loop.simps) (simp add: isTokenSequenceMatch_eq)
  next
    case False
    with "1.prems" have nm: "\<not> matches_at tokens ws i" and lt: "Suc i \<le> m" by auto
    have "findMatchingTokens_loop tokens ws (Suc i) = Inr (slice tokens m (m + length ws))"
      using "1.IH" [of False] ib nm lt "1.prems" by (simp add: isTokenSequenceMatch_eq)
    with ib nm show ?thesis
      by (subst findMatchingTokens_loop.simps) (simp add: isTokenSequenceMatch_eq)
  qed
qed

lemma findMatchingTokens_loop_none:
  "\<forall>j\<ge>i. \<not> matches_at tokens ws j \<Longrightarrow> findMatchingTokens_loop tokens ws i = Inr []"
proof (induction tokens ws i rule: findMatchingTokens_loop.induct)
  case (1 tokens ws i)
  show ?case
  proof (cases "int i \<le> int (length tokens) - int (length ws)")
    case True
    then have ib: "i + length ws \<le> length tokens" by simp
    from "1.prems" have nm: "\<not> matches_at tokens ws i" by simp
    have "findMatchingTokens_loop tokens ws (Suc i) = Inr []"
      using "1.IH" [of False] True ib nm "1.prems" by (simp add: isTokenSequenceMatch_eq)
    with ib nm True show ?thesis
      by (subst findMatchingTokens_loop.simps) (simp add: isTokenSequenceMatch_eq)
  next
    case False
    then show ?thesis by (subst findMatchingTokens_loop.simps) simp
  qed
qed


lemma matches_at_single:
  "matches_at tokens [w] i \<longleftrightarrow> i < length tokens \<and> toLowerCase (tok_text (tokens ! i)) = w"
  by (auto simp: matches_at_def slice_def take_Suc_conv_app_nth)

lemma slice_single: "i < length xs \<Longrightarrow> slice xs i (Suc i) = [xs ! i]"
  by (simp add: slice_def take_Suc_conv_app_nth)

lemma find_earliest:
  "i < length xs \<Longrightarrow> P (xs ! i) \<Longrightarrow> \<forall>j<i. \<not> P (xs ! j) \<Longrightarrow> find P xs = Some (xs ! i)"
  by (simp add: find_Some_iff) blast

lemma find_unmatched: "\<forall>j<length xs. \<not> P (xs ! j) \<Longrightarrow> find P xs = None"
  by (auto simp: find_None_iff in_set_conv_nth)

lemma findMatchingTokens_earliest:
  assumes m: "matches_at tokens (split_ws (toLowerCase e)) m"
    and least: "\<forall>j<m. \<not> matches_at tokens (split_ws (toLowerCase e)) j"
  shows "findMatchingTokensOptimized e tokens =
           Inr (slice tokens m (m + length (split_ws (toLowerCase e))))"
proof (cases "length (split_ws (toLowerCase e)) = 1")
  case True
  then obtain w where w: "split_ws (toLowerCase e) = [w]"
    by (cases "split_ws (toLowerCase e)") auto
  from m least have "find (\<lambda>t. toLowerCase (tok_text t) = w) tokens = Some (tokens ! m)"
    unfolding w matches_at_single by (intro find_earliest) auto
  moreover from m have "m < length tokens" unfolding w matches_at_single by simp
  ultimately show ?thesis
    by (simp add: findMatchingTokensOptimized_def w slice_single)
next
  case False
  with findMatchingTokens_loop_found [OF m, of 0] least show ?thesis
    by (simp add: findMatchingTokensOptimized_def Let_def)
qed

lemma findMatchingTokens_unmatched:
  assumes none: "\<forall>j. \<not> matches_at tokens (split_ws (toLowerCase e)) j"
  shows "findMatchingTokensOptimized e tokens = Inr []"
proof (cases "length (split_ws (toLowerCase e)) = 1")
  case True
  then obtain w where w: "split_ws (toLowerCase e) = [w]"
    by (cases "split_ws (toLowerCase e)") auto
  from none have "find (\<lambda>t. toLowerCase (tok_text t) = w) tokens = None"
    unfolding w matches_at_single by (intro find_unmatched) auto
  then show ?thesis
    by (simp add: findMatchingTokensOptimized_def w)
next
  case False
  with findMatchingTokens_loop_none [of 0 tokens] none show ?thesis
    by (simp add: findMatchingTokensOptimized_def Let_def)
qed

lemma matchesEntitySequence_from_same:
  "matchesEntitySequence_from tokens s ws i = isTokenSequenceMatch_from tokens s ws i"
  by (induction ws arbitrary: i) auto

lemma findEntityTokens_loop_same:
  "findEntityTokens_loop tokens ws i = findMatchingTokens_loop tokens ws i"
proof (induction tokens ws i rule: findMatchingTokens_loop.induct)
  case (1 tokens ws i)
  have same: "matchesEntitySequence tokens i ws = isTokenSequenceMatch tokens i ws"
    by (simp add: matchesEntitySequence_def isTokenSequenceMatch_def matchesEntitySequence_from_same)
  show ?case
  proof (cases "int i \<le> int (length tokens) - int (length ws)")
    case False
    then show ?thesis
      by (subst findEntityTokens_loop.simps, subst findMatchingTokens_loop.simps) simp
  next
    case True
    show ?thesis
    proof (cases "isTokenSequenceMatch tokens i ws")
      case (Inl err)
      with True show ?thesis
        by (subst findEntityTokens_loop.simps, subst findMatchingTokens_loop.simps) (simp add: same)
    next
      case (Inr b)
      show ?thesis
      proof (cases b)
        case True
        with Inr \<open>int i \<le> int (length tokens) - int (length ws)\<close> show ?thesis
          by (subst findEntityTokens_loop.simps, subst findMatchingTokens_loop.simps) (simp add: same)
      next
        case False
        have "findEntityTokens_loop tokens ws (Suc i) = findMatchingTokens_loop tokens ws (Suc i)"
          using "1.IH" [of b] Inr False \<open>int i \<le> int (length tokens) - int (length ws)\<close> by simp
        with Inr False \<open>int i \<le> int (length tokens) - int (length ws)\<close> show ?thesis
          by (subst findEntityTokens_loop.simps, subst findMatchingTokens_loop.simps) (simp add: same)
      qed
    qed
  qed
qed

lemma findEntityTokensOptimized_same:
  "findEntityTokensOptimized e tokens = findMatchingTokensOptimized e tokens"
  by (simp add: findEntityTokensOptimized_def findMatchingTokensOptimized_def Let_def
      findEntityTokens_loop_same)

lemma addEntities_drop:
  assumes none: "\<forall>j. \<not> matches_at tokens (split_ws (toLowerCase e)) j"
  shows "addEntitiesOptimized (e # es) ty tokens results = addEntitiesOptimized es ty tokens results"
  by (simp add: calculateEntityOffsetsFromTokens_def findMatchingTokens_unmatched [OF none])

text \<open>
  Claim C6. The entity recognizer maps an extracted entity string onto the tokens by its
  lower-cased words \<open>ws\<close>: the result is the run of \<open>length ws\<close> tokens at the earliest index
  where all the words match consecutive tokens case-insensitively, in the grammar engine
  (\<open>findMatchingTokensOptimized\<close>) and in the NLP service (\<open>findEntityTokensOptimized\<close>)
  alike. When no index matches, the result is empty, \<open>calculateEntityOffsetsFromTokens\<close>
  gives no span and \<open>addEntitiesOptimized\<close> adds nothing for the entity. For an entity of one
  word the match is the first token whose lower-cased text is the lower-cased entity.
\<close>

theorem entity_tokens_earliest_match:
  "(let ws = split_ws (toLowerCase e) in
    (\<forall>m. matches_at tokens ws m \<and> (\<forall>j<m. \<not> matches_at tokens ws j) \<longrightarrow>
         findMatchingTokensOptimized e tokens = Inr (slice tokens m (m + length ws)) \<and>
         findEntityTokensOptimized e tokens = Inr (slice tokens m (m + length ws))) \<and>
    ((\<forall>j. \<not> matches_at tokens ws j) \<longrightarrow>
         findMatchingTokensOptimized e tokens = Inr [] \<and>
         findEntityTokensOptimized e tokens = Inr [] \<and>
         calculateEntityOffsetsFromTokens e tokens ty = Inr None \<and>
         addEntitiesOptimized (e # es) ty tokens results =
           addEntitiesOptimized es ty tokens results) \<and>
    ((\<forall>c\<in>set e. \<not> is_space c) \<longrightarrow> ws = [toLowerCase e] \<and>
         (\<forall>m. matches_at tokens ws m \<longleftrightarrow>
              m < length tokens \<and> toLowerCase (tok_text (tokens ! m)) = toLowerCase e) \<and>
         (\<forall>m. matches_at tokens ws m \<longrightarrow> slice tokens m (m + length ws) = [tokens ! m])))"
  unfolding Let_def
proof (intro conjI allI impI)
  fix m assume "matches_at tokens (split_ws (toLowerCase e)) m \<and>
      (\<forall>j<m. \<not> matches_at tokens (split_ws (toLowerCase e)) j)"
  then show "findMatchingTokensOptimized e tokens =
      Inr (slice tokens m (m + length (split_ws (toLowerCase e))))"
    and "findEntityTokensOptimized e tokens =
      Inr (slice tokens m (m + length (split_ws (toLowerCase e))))"
    by (simp_all add: findEntityTokensOptimized_same findMatchingTokens_earliest)
next
  assume none: "\<forall>j. \<not> matches_at tokens (split_ws (toLowerCase e)) j"
  then show "findMatchingTokensOptimized e tokens = Inr []"
    and "findEntityTokensOptimized e tokens = Inr []"
    and "calculateEntityOffsetsFromTokens e tokens ty = Inr None"
    by (simp_all add: findEntityTokensOptimized_same findMatchingTokens_unmatched
        calculateEntityOffsetsFromTokens_def)
  from none show "addEntitiesOptimized (e # es) ty tokens results =
      addEntitiesOptimized es ty tokens results"
    by (rule addEntities_drop)
next
  assume ns: "\<forall>c\<in>set e. \<not> is_space c"
  then show w: "split_ws (toLowerCase e) = [toLowerCase e]" by (rule split_ws_single_word)
  fix m
  show "matches_at tokens (split_ws (toLowerCase e)) m \<longleftrightarrow>
      m < length tokens \<and> toLowerCase (tok_text (tokens ! m)) = toLowerCase e"
    by (simp add: w matches_at_single)
  show "matches_at tokens (split_ws (toLowerCase e)) m \<Longrightarrow>
      slice tokens m (m + length (split_ws (toLowerCase e))) = [tokens ! m]"
    by (simp add: w matches_at_single slice_single)
qed

theorem entity_tokens_earliest_match_witness:
  "findMatchingTokensOptimized ''Barack Obama''
     [\<lparr>tok_text = ''Barack'', tok_pos = ''Noun'', tok_start = Some 0, tok_end = Some 6\<rparr>,
      \<lparr>tok_text = ''Obama'', tok_pos = ''Noun'', tok_start = Some 7, tok_end = Some 12\<rparr>,
      \<lparr>tok_text = ''met'', tok_pos = ''Verb'', tok_start = Some 13, tok_end = Some 16\<rparr>,
      \<lparr>tok_text = ''barack'', tok_pos = ''Noun'', tok_start = Some 17, tok_end = Some 23\<rparr>,
      \<lparr>tok_text = ''obama'', tok_pos = ''Noun'', tok_start = Some 24, tok_end = Some 29\<rparr>]
   = Inr [\<lparr>tok_text = ''Barack'', tok_pos = ''Noun'', tok_start = Some 0, tok_end = Some 6\<rparr>,
          \<lparr>tok_text = ''Obama'', tok_pos = ''Noun'', tok_start = Some 7, tok_end = Some 12\<rparr>] \<and>
   findEntityTokensOptimized ''London''
     [\<lparr>tok_text = ''Barack'', tok_pos = ''Noun'', tok_start = Some 0, tok_end = Some 6\<rparr>,
      \<lparr>tok_text = ''Obama'', tok_pos = ''Noun'', tok_start = Some 7, tok_end = Some 12\<rparr>]
   = Inr []"
proof -
  let ?a = "\<lparr>tok_text = ''Barack'', tok_pos = ''Noun'', tok_start = Some 0, tok_end = Some 6\<rparr>"
  let ?b = "\<lparr>tok_text = ''Obama'', tok_pos = ''Noun'', tok_start = Some 7, tok_end = Some 12\<rparr>"
  let ?c = "\<lparr>tok_text = ''met'', tok_pos = ''Verb'', tok_start = Some 13, tok_end = Some 16\<rparr>"
  let ?d = "\<lparr>tok_text = ''barack'', tok_pos = ''Noun'', tok_start = Some 17, tok_end = Some 23\<rparr>"
  let ?e = "\<lparr>tok_text = ''obama'', tok_pos = ''Noun'', tok_start = Some 24, tok_end = Some 29\<rparr>"
  have ws: "split_ws (toLowerCase ''Barack Obama'') = [''barack'', ''obama'']"
    by code_simp
  have m: "matches_at [?a, ?b, ?c, ?d, ?e] (split_ws (toLowerCase ''Barack Obama'')) 0"
    unfolding ws by code_simp
  have sl: "slice [?a, ?b, ?c, ?d, ?e] 0 (0 + length (split_ws (toLowerCase ''Barack Obama'')))
      = [?a, ?b]"
    unfolding ws by (simp add: slice_def)
  note main = entity_tokens_earliest_match [where e = "''Barack Obama''"
      and tokens = "[?a, ?b, ?c, ?d, ?e]" and ty = "''Person''" and es = "[]" and results = "[]",
      unfolded Let_def]
  from main have "matches_at [?a, ?b, ?c, ?d, ?e] (split_ws (toLowerCase ''Barack Obama'')) 0 \<and>
      (\<forall>j<0. \<not> matches_at [?a, ?b, ?c, ?d, ?e] (split_ws (toLowerCase ''Barack Obama'')) j) \<longrightarrow>
      findMatchingTokensOptimized ''Barack Obama'' [?a, ?b, ?c, ?d, ?e] =
        Inr (slice [?a, ?b, ?c, ?d, ?e] 0 (0 + length (split_ws (toLowerCase ''Barack Obama''))))"
    by blast
  with m sl have first:
    "findMatchingTokensOptimized ''Barack Obama'' [?a, ?b, ?c, ?d, ?e] = Inr [?a, ?b]"
    by simp
  have nospace: "\<forall>c\<in>set ''London''. \<not> is_space c"
    by (simp add: is_space_def)
  have lw: "toLowerCase ''London'' = ''london''"
    by code_simp
  note other = entity_tokens_earliest_match [where e = "''London''"
      and tokens = "[?a, ?b]" and ty = "''Location''" and es = "[]" and results = "[]",
      unfolded Let_def]
  from other nospace have iff: "\<forall>m. matches_at [?a, ?b] (split_ws (toLowerCase ''London'')) m \<longleftrightarrow>
      m < length [?a, ?b] \<and> toLowerCase (tok_text ([?a, ?b] ! m)) = toLowerCase ''London''"
    by blast
  have none: "\<forall>j. \<not> matches_at [?a, ?b] (split_ws (toLowerCase ''London'')) j"
  proof
    fix j
    have "j < length [?a, ?b] \<Longrightarrow> toLowerCase (tok_text ([?a, ?b] ! j)) \<noteq> ''london''"
      by (cases j) (auto simp: less_Suc_eq toLowerCase_def)
    with iff lw show "\<not> matches_at [?a, ?b] (split_ws (toLowerCase ''London'')) j"
      by simp
  qed
  from other none have second: "findEntityTokensOptimized ''London'' [?a, ?b] = Inr []"
    by blast
  from first second show ?thesis by simp
qed

section \<open>Keyword-table scoring\<close>







lemma sorted_desc_sort_key:
  "sorted_wrt (\<lambda>a b. b \<le> a) (map f (sort_key (\<lambda>r. - f r) xs))" for f :: "'a \<Rightarrow> rat"
proof -
  have "sorted (map (\<lambda>r. - f r) (sort_key (\<lambda>r. - f r) xs))" by (rule sorted_sort_key)
  then show ?thesis by (simp add: sorted_map sorted_wrt_map)
qed







section \<open>Fast spelling and grammar checks\<close>

lemma index_in_bound: "index_in w s = Some i \<Longrightarrow> i + length w \<le> length s"
proof (induction s arbitrary: i)
  case Nil
  then show ?case by (auto split: if_splits)
next
  case (Cons c cs)
  show ?case
  proof (cases "prefix w (c # cs)")
    case True
    with Cons.prems have "i = 0" by simp
    with True show ?thesis by (auto dest: prefix_length_le)
  next
    case False
    with Cons.prems obtain j where "index_in w cs = Some j" "i = Suc j" by auto
    with Cons.IH [of j] show ?thesis by simp
  qed
qed

lemma indexOf_zero:
  "indexOf s w 0 = (case index_in w s of None \<Rightarrow> -1 | Some i \<Rightarrow> int i)"
  by (simp add: indexOf_def split: option.splits)

lemma space_not_word: "\<not> is_word CHR '' ''"
  by (simp add: is_word_def is_alpha_def is_upper_def is_lower_def is_digit_def)

lemma length_toLowerCase [simp]: "length (toLowerCase s) = length s"
  by (simp add: toLowerCase_def)

lemma checkSpellingFast_step:
  "checkSpellingFast_loop (entry # knownWords) line lineNumber results =
     (case spelling_hit line lineNumber entry of
        None \<Rightarrow> checkSpellingFast_loop knownWords line lineNumber results
      | Some r \<Rightarrow> if length (results @ [r]) \<ge> 2 then results @ [r]
                  else checkSpellingFast_loop knownWords line lineNumber (results @ [r]))"
proof (cases entry)
  case (Pair word correction)
  show ?thesis
  proof (cases "index_in word (toLowerCase line)")
    case None
    then show ?thesis by (simp add: Pair indexOf_zero spelling_hit_def)
  next
    case (Some i)
    from index_in_bound [OF Some] have bound: "i + length word \<le> length line" by simp
    have before: "(0 < int i) = (i \<noteq> 0)" by auto
    have "nat (int i - 1) = i - 1" by simp
    moreover have "nat (int i + int (length word)) = i + length word" by simp
    moreover have "(int i + int (length word) < int (length line)) = (\<not> length line \<le> i + length word)"
      by auto
    moreover have "nat (int i + 1) = i + 1" by simp
    ultimately show ?thesis
      using before by (simp add: Pair indexOf_zero spelling_hit_def Some Let_def space_not_word)
  qed
qed

lemma checkSpellingFast_loop_take:
  "length results < 2 \<Longrightarrow>
   checkSpellingFast_loop knownWords line lineNumber results =
     take 2 (results @ List.map_filter (spelling_hit line lineNumber) knownWords)"
proof (induction knownWords arbitrary: results)
  case Nil
  then show ?case by (simp add: List.map_filter_simps)
next
  case (Cons entry knownWords)
  show ?case
  proof (cases "spelling_hit line lineNumber entry")
    case None
    with Cons show ?thesis
      by (simp add: checkSpellingFast_step List.map_filter_simps del: checkSpellingFast_loop.simps)
  next
    case (Some r)
    show ?thesis
    proof (cases "length (results @ [r]) \<ge> 2")
      case True
      with Cons.prems have "length results = 1" by simp
      with Some True show ?thesis
        by (simp add: checkSpellingFast_step List.map_filter_simps del: checkSpellingFast_loop.simps)
    next
      case False
      then have short: "length (results @ [r]) < 2" by (simp only: not_le)
      from False have empty: "results = []" by (cases results) simp_all
      from Cons.IH [OF short] Some False empty show ?thesis
        by (simp add: checkSpellingFast_step List.map_filter_simps del: checkSpellingFast_loop.simps)
    qed
  qed
qed

lemma checkGrammarRulesFast_step:
  "checkGrammarRulesFast_loop (rule # rules) line lineNumber results =
     (case rule_hit line lineNumber rule of
        None \<Rightarrow> checkGrammarRulesFast_loop rules line lineNumber results
      | Some r \<Rightarrow> if length (results @ [r]) \<ge> 3 then results @ [r]
                  else checkGrammarRulesFast_loop rules line lineNumber (results @ [r]))"
  by (simp add: rule_hit_def regexp_exec_def Let_def split: option.splits)

lemma checkGrammarRulesFast_loop_take:
  "length results < 3 \<Longrightarrow>
   checkGrammarRulesFast_loop rules line lineNumber results =
     take 3 (results @ List.map_filter (rule_hit line lineNumber) rules)"
proof (induction rules arbitrary: results)
  case Nil
  then show ?case by (simp add: List.map_filter_simps)
next
  case (Cons rule rules)
  show ?case
  proof (cases "rule_hit line lineNumber rule")
    case None
    with Cons show ?thesis
      by (simp add: checkGrammarRulesFast_step List.map_filter_simps del: checkGrammarRulesFast_loop.simps)
  next
    case (Some r)
    show ?thesis
    proof (cases "length (results @ [r]) \<ge> 3")
      case True
      with Cons.prems have "length results = 2" by simp
      with Some True show ?thesis
        by (simp add: checkGrammarRulesFast_step List.map_filter_simps del: checkGrammarRulesFast_loop.simps)
    next
      case False
      then have short: "length (results @ [r]) < 3" by (simp only: not_le)
      have assoc: "(results @ [r]) @ xs = results @ r # xs" for xs by simp
      from Cons.IH [OF short] Some False show ?thesis
        unfolding assoc
        by (simp add: checkGrammarRulesFast_step List.map_filter_simps del: checkGrammarRulesFast_loop.simps)
    qed
  qed
qed


text \<open>
  Claim C5. For every line, the misspelling check reports what the entries of the fixed
  misspelling table report (a case-insensitive substring search whose first occurrence must
  have no word character before and after it), in table order and at most two of them; the
  pattern-rule check reports each rule's first match, with the 1-based match index as
  column, in declaration order and at most three of them.
\<close>

theorem fast_checks_bounded_first_matches:
  "checkSpellingFast line lineNumber =
     take 2 (List.map_filter (spelling_hit line lineNumber) COMMON_MISSPELLINGS) \<and>
   length (checkSpellingFast line lineNumber) \<le> 2 \<and>
   checkGrammarRulesFast rules line lineNumber =
     take 3 (List.map_filter (rule_hit line lineNumber) rules) \<and>
   length (checkGrammarRulesFast rules line lineNumber) \<le> 3"
proof -
  have spell: "checkSpellingFast line lineNumber =
      take 2 (List.map_filter (spelling_hit line lineNumber) COMMON_MISSPELLINGS)"
    using checkSpellingFast_loop_take [of "[]" COMMON_MISSPELLINGS line lineNumber]
    by (simp add: checkSpellingFast_def)
  have rules: "checkGrammarRulesFast rules line lineNumber =
      take 3 (List.map_filter (rule_hit line lineNumber) rules)"
    using checkGrammarRulesFast_loop_take [of "[]" rules line lineNumber]
    by (simp add: checkGrammarRulesFast_def)
  have "length (checkSpellingFast line lineNumber) \<le> 2"
    unfolding spell by simp
  moreover have "length (checkGrammarRulesFast rules line lineNumber) \<le> 3"
    unfolding rules by simp
  ultimately show ?thesis using spell rules by (intro conjI)
qed

theorem fast_checks_bounded_first_matches_witness:
  "map cr_column (checkSpellingFast ''a caat eror runing'' 1) = [3, 8] \<and>
   map cr_column (checkGrammarRulesFast GRAMMAR_RULES ''I ran,x  and go'' 1)
     = [1, 8, 6]"
proof -
  have a: "map cr_column
      (take 2 (List.map_filter (spelling_hit ''a caat eror runing'' 1) COMMON_MISSPELLINGS)) = [3, 8]"
    by code_simp
  have b: "map cr_column
      (take 3 (List.map_filter (rule_hit ''I ran,x  and go'' 1) GRAMMAR_RULES))
      = [1, 8, 6]"
    by code_simp
  from fast_checks_bounded_first_matches [of "''a caat eror runing''" 1 GRAMMAR_RULES]
  have "checkSpellingFast ''a caat eror runing'' 1 =
      take 2 (List.map_filter (spelling_hit ''a caat eror runing'' 1) COMMON_MISSPELLINGS)"
    by (rule conjunct1)
  moreover from fast_checks_bounded_first_matches
    [of "''I ran,x  and go''" 1 GRAMMAR_RULES]
  have "checkGrammarRulesFast GRAMMAR_RULES ''I ran,x  and go'' 1 =
      take 3 (List.map_filter (rule_hit ''I ran,x  and go'' 1) GRAMMAR_RULES)"
    by blast
  ultimately show ?thesis using a b by simp
qed

section \<open>Reconfiguration is atomic\<close>













section \<open>Style suggestions of the passive-voice rule\<close>





lemma style_suggestion_type [simp]:
  "sg_type (style_suggestion rule line lineNumber m) = sr_type rule"
  by (simp add: style_suggestion_def Let_def split: option.splits sum.splits)

lemma style_suggestion_column [simp]:
  "sg_column (style_suggestion rule line lineNumber m) = m_index m + 1"
  by (simp add: style_suggestion_def Let_def split: option.splits sum.splits)







section \<open>The result cache and repeated checks\<close>

text \<open>
  Claim C4. \<open>checkGrammar\<close> caches under the trimmed text the results it computed for the
  text as given. After a check of \<open>" caat"\<close> a check of \<open>"caat"\<close> hits the cache and
  reports the misspelling at column 2; once the entry has expired, the next check of
  \<open>"caat"\<close> computes its results and reports column 1. Two calls with the identical input
  return different results.
\<close>

theorem checkGrammar_same_input_different_results:
  "(case checkGrammar GRAMMAR_RULES initial_state '' caat'' of (r1, s1) \<Rightarrow>
    case checkGrammar GRAMMAR_RULES s1 ''caat'' of (r2, s2) \<Rightarrow>
    case checkGrammar GRAMMAR_RULES (timer_fires s2 ''caat'') ''caat'' of (r3, s3) \<Rightarrow>
      map cr_column r1 = [2] \<and> map cr_column r2 = [2] \<and> map cr_column r3 = [1] \<and> r2 \<noteq> r3)"
proof -
  have "(case checkGrammar GRAMMAR_RULES initial_state '' caat'' of (r1, s1) \<Rightarrow>
    case checkGrammar GRAMMAR_RULES s1 ''caat'' of (r2, s2) \<Rightarrow>
    case checkGrammar GRAMMAR_RULES (timer_fires s2 ''caat'') ''caat'' of (r3, s3) \<Rightarrow>
      map cr_column r1 = [2] \<and> map cr_column r2 = [2] \<and> map cr_column r3 = [1])"
    by code_simp
  then show ?thesis by (auto split: prod.splits)
qed

section \<open>Tone detection\<close>

lemma detectTone_loop_tones:
  "map tr_tone (detectTone_loop lexicons input wordCount) =
     map fst (filter (\<lambda>entry. tone_detected input wordCount (snd entry)) lexicons)"
  by (induction lexicons input wordCount rule: detectTone_loop.induct)
     (simp_all add: tone_detected_def Let_def)

lemma tone_normalized_score_le_1: "tone_normalized_score score wordCount \<le> 1"
  by (simp add: tone_normalized_score_def)

lemma tone_normalized_score_zero: "tone_normalized_score 0 wordCount = 0"
  by (simp add: tone_normalized_score_def)

lemma detectTone_loop_scores:
  "r \<in> set (detectTone_loop lexicons input wordCount) \<Longrightarrow> 1 / 10 \<le> tr_score r \<and> tr_score r \<le> 1"
  by (induction lexicons input wordCount rule: detectTone_loop.induct)
     (auto simp: Let_def tone_normalized_score_le_1 split: if_splits)

lemma missing_names:
  assumes "distinct (map fst xs)"
  shows "filter (\<lambda>t. t \<notin> set (map fst (filter P xs))) (map fst xs) =
           map fst (filter (\<lambda>x. \<not> P x) xs)"
proof -
  from assms have inj: "inj_on fst (set xs)" by (simp add: distinct_map)
  have "(fst x \<notin> set (map fst (filter P xs))) = (\<not> P x)" if "x \<in> set xs" for x
  proof
    assume "fst x \<notin> set (map fst (filter P xs))"
    with that show "\<not> P x" by force
  next
    assume np: "\<not> P x"
    show "fst x \<notin> set (map fst (filter P xs))"
    proof
      assume "fst x \<in> set (map fst (filter P xs))"
      then obtain y where y: "y \<in> set xs" "P y" "fst y = fst x" by auto
      with inj that have "y = x" by (auto dest: inj_onD)
      with y np show False by simp
    qed
  qed
  then show ?thesis by (simp add: filter_map comp_def cong: filter_cong)
qed

lemma detectTone_with_nonblank:
  assumes "trim input \<noteq> []"
  shows "detectTone_with lexicons input =
     sort_key (\<lambda>r. - tr_score r) (detectTone_loop lexicons input (length (split_ws input))) @
     map (\<lambda>tone. \<lparr>tr_tone = tone, tr_score = 0\<rparr>)
       (filter (\<lambda>tone. tone \<notin> set (map tr_tone (detectTone_loop lexicons input (length (split_ws input)))))
          (map fst lexicons))"
proof -
  from assms have "input \<noteq> []" by (auto simp: trim_def)
  with assms show ?thesis by (simp add: detectTone_with_def Let_def)
qed

lemma detectTone_with_blank:
  "trim input = [] \<Longrightarrow> detectTone_with lexicons input = []"
  by (simp add: detectTone_with_def)

lemma detectTone_with_tones:
  assumes "trim input \<noteq> []" and "distinct (map fst lexicons)"
  shows "mset (map tr_tone (detectTone_with lexicons input)) = mset (map fst lexicons)"
proof -
  let ?wc = "length (split_ws input)"
  let ?P = "\<lambda>entry. tone_detected input ?wc (snd entry)"
  have zero: "map tr_tone (map (\<lambda>tone. \<lparr>tr_tone = tone, tr_score = 0\<rparr>) ts) = ts" for ts
    by (induction ts) auto
  let ?loop = "detectTone_loop lexicons input ?wc"
  have srt: "mset (map tr_tone (sort_key (\<lambda>r. - tr_score r) ?loop)) = mset (map tr_tone ?loop)"
    by simp
  have miss: "filter (\<lambda>tone. tone \<notin> set (map tr_tone ?loop)) (map fst lexicons)
      = map fst (filter (\<lambda>x. \<not> ?P x) lexicons)"
    unfolding detectTone_loop_tones by (rule missing_names [OF assms(2)])
  have "mset (map tr_tone (detectTone_with lexicons input)) =
      mset (map tr_tone (sort_key (\<lambda>r. - tr_score r) ?loop)) +
      mset (filter (\<lambda>tone. tone \<notin> set (map tr_tone ?loop)) (map fst lexicons))"
    unfolding detectTone_with_nonblank [OF assms(1)]
    by (simp only: map_append mset_append zero)
  also have "\<dots> = mset (map fst (filter ?P lexicons)) +
      mset (map fst (filter (\<lambda>x. \<not> ?P x) lexicons))"
    by (simp only: srt detectTone_loop_tones missing_names [OF assms(2)])
  also have "\<dots> = mset (map fst lexicons)"
    by (simp flip: image_mset_union)
  finally show ?thesis .
qed

lemma detectTone_with_scores:
  assumes "r \<in> set (detectTone_with lexicons input)"
  shows "0 \<le> tr_score r \<and> tr_score r \<le> 1"
proof (cases "trim input = []")
  case True
  from assms show ?thesis by (simp add: detectTone_with_blank [OF True])
next
  case False
  from assms show ?thesis
    unfolding detectTone_with_nonblank [OF False]
    using detectTone_loop_scores [of r lexicons input "length (split_ws input)"]
    by auto
qed

lemma detectTone_with_sorted:
  "sorted_wrt (\<lambda>a b. b \<le> a) (map tr_score (detectTone_with lexicons input))"
proof (cases "trim input = []")
  case True
  then show ?thesis by (simp add: detectTone_with_blank)
next
  case False
  let ?loop = "detectTone_loop lexicons input (length (split_ws input))"
  have a: "sorted_wrt (\<lambda>a b. b \<le> a) (map tr_score (sort_key (\<lambda>r. - tr_score r) ?loop))"
    by (rule sorted_desc_sort_key)
  have b: "sorted_wrt (\<lambda>a b. b \<le> a)
      (map tr_score (map (\<lambda>tone. \<lparr>tr_tone = tone, tr_score = 0\<rparr>) ts))" for ts
    by (induction ts) auto
  have c: "0 \<le> tr_score r" if "r \<in> set ?loop" for r
    using detectTone_loop_scores [OF that] by simp
  show ?thesis
    unfolding detectTone_with_nonblank [OF False]
    using a b c by (auto simp: sorted_wrt_append)
qed

lemma detectTone_with_no_signal:
  assumes "trim input \<noteq> []" and "distinct (map fst lexicons)"
    and "(name, lexicon) \<in> set lexicons" and "tone_raw_score lexicon input = 0"
  shows "\<lparr>tr_tone = name, tr_score = 0\<rparr> \<in> set (detectTone_with lexicons input)"
proof -
  let ?wc = "length (split_ws input)"
  let ?P = "\<lambda>entry. tone_detected input ?wc (snd entry)"
  from assms(4) have "\<not> ?P (name, lexicon)"
    by (simp add: tone_detected_def tone_normalized_score_zero)
  with assms(3) have "name \<in> set (map fst (filter (\<lambda>x. \<not> ?P x) lexicons))" by force
  then show ?thesis
    unfolding detectTone_with_nonblank [OF assms(1)] detectTone_loop_tones
      missing_names [OF assms(2)]
    by auto
qed


lemma TONE_LEXICONS_names:
  "map fst TONE_LEXICONS = [''formal'', ''informal'', ''friendly'', ''professional'']"
  by (simp add: TONE_LEXICONS_def)

lemma TONE_LEXICONS_distinct: "distinct (map fst TONE_LEXICONS)"
  unfolding TONE_LEXICONS_names by simp

text \<open>
  Claim C2, as amended. For every input that is not empty and not white space only,
  \<open>detectTone\<close> returns exactly four entries, one for each of the tones formal, informal,
  friendly and professional, each with a score from 0 to 1, in descending order of score,
  and a tone without any word or pattern hit has the score 0. For the empty string and for
  white space only it returns the empty list.
\<close>

theorem detectTone_four_entries_unless_blank:
  "(trim input \<noteq> [] \<longrightarrow>
      length (detectTone input) = 4 \<and>
      mset (map tr_tone (detectTone input)) =
        mset [''formal'', ''informal'', ''friendly'', ''professional''] \<and>
      (\<forall>r \<in> set (detectTone input). 0 \<le> tr_score r \<and> tr_score r \<le> 1) \<and>
      sorted_wrt (\<lambda>a b. b \<le> a) (map tr_score (detectTone input)) \<and>
      (\<forall>(name, lexicon) \<in> set TONE_LEXICONS. tone_raw_score lexicon input = 0 \<longrightarrow>
          \<lparr>tr_tone = name, tr_score = 0\<rparr> \<in> set (detectTone input))) \<and>
   (trim input = [] \<longrightarrow> detectTone input = [])"
proof (intro conjI impI)
  assume nb: "trim input \<noteq> []"
  show tones: "mset (map tr_tone (detectTone input)) =
        mset [''formal'', ''informal'', ''friendly'', ''professional'']"
    using detectTone_with_tones [OF nb TONE_LEXICONS_distinct]
    by (simp only: detectTone_def TONE_LEXICONS_names)
  have "length (detectTone input) = size (mset (map tr_tone (detectTone input)))"
    by simp
  also have "\<dots> = 4" unfolding tones by simp
  finally show "length (detectTone input) = 4" .
  show "\<forall>r \<in> set (detectTone input). 0 \<le> tr_score r \<and> tr_score r \<le> 1"
    using detectTone_with_scores [of _ TONE_LEXICONS input] by (simp add: detectTone_def)
  show "sorted_wrt (\<lambda>a b. b \<le> a) (map tr_score (detectTone input))"
    unfolding detectTone_def by (rule detectTone_with_sorted)
  show "\<forall>(name, lexicon) \<in> set TONE_LEXICONS. tone_raw_score lexicon input = 0 \<longrightarrow>
          \<lparr>tr_tone = name, tr_score = 0\<rparr> \<in> set (detectTone input)"
    using detectTone_with_no_signal [OF nb TONE_LEXICONS_distinct]
    unfolding detectTone_def by blast
next
  assume "trim input = []"
  then show "detectTone input = []"
    unfolding detectTone_def by (rule detectTone_with_blank)
qed

theorem detectTone_four_entries_unless_blank_witness:
  "trim ''thanks ok'' \<noteq> [] \<and> length (detectTone ''thanks ok'') = 4 \<and>
   detectTone ''thanks ok'' =
     [\<lparr>tr_tone = ''informal'', tr_score = 1\<rparr>, \<lparr>tr_tone = ''friendly'', tr_score = 1\<rparr>,
      \<lparr>tr_tone = ''formal'', tr_score = 0\<rparr>, \<lparr>tr_tone = ''professional'', tr_score = 0\<rparr>] \<and>
   trim ''  '' = [] \<and> detectTone ''  '' = []"
proof -
  have a: "trim ''thanks ok'' \<noteq> []" by code_simp
  have b: "trim ''  '' = []" by code_simp
  have c: "detectTone ''thanks ok'' =
     [\<lparr>tr_tone = ''informal'', tr_score = 1\<rparr>, \<lparr>tr_tone = ''friendly'', tr_score = 1\<rparr>,
      \<lparr>tr_tone = ''formal'', tr_score = 0\<rparr>, \<lparr>tr_tone = ''professional'', tr_score = 0\<rparr>]"
    by code_simp
  from detectTone_four_entries_unless_blank [of "''thanks ok''"] a
  have d: "length (detectTone ''thanks ok'') = 4" by blast
  from detectTone_four_entries_unless_blank [of "''  ''"] b
  have e: "detectTone ''  '' = []" by blast
  from a b c d e show ?thesis by (intro conjI)
qed

theorem detectTone_blank_counterexample:
  "detectTone [] = [] \<and> length (detectTone ''  '') \<noteq> 4"
  by (simp add: detectTone_def detectTone_with_def trim_def is_space_def)

section \<open>Token offsets of the tagger\<close>






section \<open>Custom entity spans\<close>

lemma split_char_from_no_sep:
  "sep \<notin> set s \<Longrightarrow> split_char_from sep cur s = [rev cur @ s]"
  by (induction s arbitrary: cur) auto

lemma split_char_from_first:
  "sep \<notin> set a \<Longrightarrow>
   split_char_from sep cur (a @ sep # rest) = (rev cur @ a) # split_char_from sep [] rest"
  by (induction a arbitrary: cur) auto

lemma split_entity_entry:
  assumes "CHR '':'' \<notin> set ty" and "CHR '':'' \<notin> set v"
  shows "split_char CHR '':'' (''entity:'' @ ty @ '':'' @ v) = [''entity'', ty, v]"
proof -
  have e: "CHR '':'' \<notin> set ''entity''" by simp
  have "split_char CHR '':'' (''entity'' @ CHR '':'' # (ty @ CHR '':'' # v))
      = ''entity'' # split_char_from CHR '':'' [] (ty @ CHR '':'' # v)"
    unfolding split_char_def using split_char_from_first [OF e, of "[]"] by simp
  also have "split_char_from CHR '':'' [] (ty @ CHR '':'' # v) = ty # split_char_from CHR '':'' [] v"
    using split_char_from_first [OF assms(1), of "[]"] by simp
  also have "split_char_from CHR '':'' [] v = [v]"
    using split_char_from_no_sep [OF assms(2), of "[]"] by simp
  finally show ?thesis by simp
qed

text \<open>
  The custom entities of the grammar engine. For a dictionary entry \<open>entity:TYPE:value\<close>
  whose value is, case-insensitively, the text of a token, \<open>processCustomEntities\<close> emits a
  span with the text of the first such token in its original casing and the type in upper
  case; the span has the token's offset and the end after the token's text when the offset
  is not negative, and -1 for both otherwise.
\<close>

theorem processCustomEntities_emits_token_span:
  assumes "''entity:'' @ ty @ '':'' @ v \<in> set words"
    and "CHR '':'' \<notin> set ty" and "CHR '':'' \<notin> set v"
    and "find (\<lambda>t. toLowerCase (tok_text t) = toLowerCase v) tokens = Some entityToken"
  shows "\<lparr>ent_text = tok_text entityToken, ent_type = toUpperCase ty,
          ent_start = (if getOptimizedOffset entityToken tokens \<ge> 0
                       then getOptimizedOffset entityToken tokens else -1),
          ent_end = (if getOptimizedOffset entityToken tokens \<ge> 0
                     then getOptimizedOffset entityToken tokens + int (length (tok_text entityToken))
                     else -1)\<rparr>
         \<in> set (processCustomEntities words tokens)"
proof -
  let ?word = "''entity:'' @ ty @ '':'' @ v"
  let ?span = "\<lparr>ent_text = tok_text entityToken, ent_type = toUpperCase ty,
          ent_start = (if getOptimizedOffset entityToken tokens \<ge> 0
                       then getOptimizedOffset entityToken tokens else -1),
          ent_end = (if getOptimizedOffset entityToken tokens \<ge> 0
                     then getOptimizedOffset entityToken tokens + int (length (tok_text entityToken))
                     else -1)\<rparr>"
  have "custom_entity tokens ?word = Some ?span"
    unfolding custom_entity_def split_entity_entry [OF assms(2,3)]
    using assms(4) by (simp add: Let_def)
  moreover have "startsWith ?word ''entity:''"
    by (simp add: startsWith_def)
  ultimately have "\<exists>w \<in> set (filter (\<lambda>word. startsWith word ''entity:'') words).
      custom_entity tokens w = Some ?span"
    using assms(1) by auto
  then show ?thesis
    by (auto simp: processCustomEntities_def List.map_filter_def intro!: image_eqI)
qed

theorem processCustomEntities_emits_token_span_witness:
  "\<lparr>ent_text = ''Acme'', ent_type = ''PRODUCT'', ent_start = 4, ent_end = 8\<rparr>
     \<in> set (processCustomEntities [''colour'', ''entity:product:ACME'']
              [\<lparr>tok_text = ''Buy'', tok_pos = ''Verb'', tok_start = None, tok_end = None\<rparr>,
               \<lparr>tok_text = ''Acme'', tok_pos = ''Noun'', tok_start = None, tok_end = None\<rparr>])"
proof -
  let ?buy = "\<lparr>tok_text = ''Buy'', tok_pos = ''Verb'', tok_start = None, tok_end = None\<rparr>"
  let ?acme = "\<lparr>tok_text = ''Acme'', tok_pos = ''Noun'', tok_start = None, tok_end = None\<rparr>"
  have f: "find (\<lambda>t. toLowerCase (tok_text t) = toLowerCase ''ACME'') [?buy, ?acme] = Some ?acme"
    by code_simp
  have off: "getOptimizedOffset ?acme [?buy, ?acme] = 4" by code_simp
  have up: "toUpperCase ''product'' = ''PRODUCT''" by code_simp
  have mem: "''entity:'' @ ''product'' @ '':'' @ ''ACME'' \<in> set [''colour'', ''entity:product:ACME'']"
    by simp
  from processCustomEntities_emits_token_span [OF mem _ _ f]
  show ?thesis by (simp add: off up)
qed

text \<open>
  Claim C7. The entity recognizer of the NLP service, on the same dictionary entry and the
  same tokens, emits the value as the dictionary spells it, the type as declared and the
  offsets -1 and -1, where the recognizer of the grammar engine emits the casing of the
  token, the type in upper case and the resolved offsets.
\<close>

theorem nlp_custom_entity_keeps_dictionary_text:
  "nlp_customEntities [''entity:product:ACME'']
     [\<lparr>tok_text = ''Buy'', tok_pos = ''Verb'', tok_start = None, tok_end = None\<rparr>,
      \<lparr>tok_text = ''Acme'', tok_pos = ''Noun'', tok_start = None, tok_end = None\<rparr>]
     = [\<lparr>ent_text = ''ACME'', ent_type = ''product'', ent_start = -1, ent_end = -1\<rparr>] \<and>
   processCustomEntities [''entity:product:ACME'']
     [\<lparr>tok_text = ''Buy'', tok_pos = ''Verb'', tok_start = None, tok_end = None\<rparr>,
      \<lparr>tok_text = ''Acme'', tok_pos = ''Noun'', tok_start = None, tok_end = None\<rparr>]
     = [\<lparr>ent_text = ''Acme'', ent_type = ''PRODUCT'', ent_start = 4, ent_end = 8\<rparr>]"
  by code_simp

end
